theory Spec2Isabelle
  imports Main "HOL-Library.AList"
begin

section \<open>Python values, exceptions and the environment\<close>

text \<open>
  The script \<^verbatim>\<open>custom_whisper.py\<close> has three functions:
  \<^verbatim>\<open>create_datetime_directory\<close>, \<^verbatim>\<open>transcribe_audio\<close> and \<^verbatim>\<open>main\<close>.
  Everything they touch outside themselves is made explicit here: the wall clock, the
  filesystem, the console, the transcription engine and the command line. The library
  functions follow CPython 3.11 on Linux.

  Arguments of the functions are Python values. The script handles \<^verbatim>\<open>None\<close> and
  strings; \<^verbatim>\<open>argparse\<close> stores a list of strings when one argument takes several
  command-line strings. A character stands for the code point of the same number, so
  strings are limited to code points below 256.
\<close>

datatype pyval = PyNone | PyStr string | PyList "string list"

text \<open>Truthiness as tested by \<^verbatim>\<open>if language:\<close>, \<^verbatim>\<open>if task:\<close> and
  \<^verbatim>\<open>if not output_file:\<close>: \<^verbatim>\<open>None\<close>, the empty string and the empty list are falsy.\<close>

fun truthy :: "pyval \<Rightarrow> bool" where
  "truthy PyNone = False"
| "truthy (PyStr s) = (s \<noteq> [])"
| "truthy (PyList xs) = (xs \<noteq> [])"

text \<open>
  \<^verbatim>\<open>repr\<close> of a string: single quotes, or double quotes when the string holds a single
  quote and no double quote; the backslash, the quote, and the characters that are not
  printable are escaped.
\<close>

definition hex_digit :: "nat \<Rightarrow> char" where
  "hex_digit d = ''0123456789abcdef'' ! (d mod 16)"

definition repr_char :: "char \<Rightarrow> char \<Rightarrow> string" where
  "repr_char q c =
     (let n = (of_char c :: nat) in
      if c = CHR 0x5C then [CHR 0x5C, CHR 0x5C]
      else if c = q then [CHR 0x5C, q]
      else if c = CHR 0x09 then [CHR 0x5C, CHR ''t'']
      else if c = CHR 0x0A then [CHR 0x5C, CHR ''n'']
      else if c = CHR 0x0D then [CHR 0x5C, CHR ''r'']
      else if n < 32 \<or> n = 127 \<or> (128 \<le> n \<and> n \<le> 160) \<or> n = 173
        then [CHR 0x5C, CHR ''x'', hex_digit (n div 16), hex_digit n]
      else [c])"

definition py_repr :: "string \<Rightarrow> string" where
  "py_repr s =
     (let q = (if CHR 0x27 \<in> set s \<and> CHR 0x22 \<notin> set s then CHR 0x22 else CHR 0x27)
      in [q] @ concat (map (repr_char q) s) @ [q])"

fun join_with :: "string \<Rightarrow> string list \<Rightarrow> string" where
  "join_with sep [] = []"
| "join_with sep [x] = x"
| "join_with sep (x # y # ys) = x @ sep @ join_with sep (y # ys)"

text \<open>What \<^verbatim>\<open>{v}\<close> inside an f-string renders, and the name of the value's type as error
  messages give it.\<close>

fun py_str :: "pyval \<Rightarrow> string" where
  "py_str PyNone = ''None''"
| "py_str (PyStr s) = s"
| "py_str (PyList xs) = ''['' @ join_with '', '' (map py_repr xs) @ '']''"

fun type_name :: "pyval \<Rightarrow> string" where
  "type_name PyNone = ''NoneType''"
| "type_name (PyStr s) = ''str''"
| "type_name (PyList xs) = ''list''"

text \<open>
  Exceptions. \<open>Exception cls msg\<close> stands for any instance of a class derived from
  Python's \<^verbatim>\<open>Exception\<close>, with its class name and its \<^verbatim>\<open>str()\<close>.
  \<^verbatim>\<open>KeyboardInterrupt\<close> and \<^verbatim>\<open>SystemExit\<close> derive from \<^verbatim>\<open>BaseException\<close>
  only, so a handler \<^verbatim>\<open>except Exception\<close> does not match them.
\<close>

datatype exn = Exception string string | KeyboardInterrupt | SystemExit int

fun is_Exception :: "exn \<Rightarrow> bool" where
  "is_Exception (Exception cls msg) = True"
| "is_Exception KeyboardInterrupt = False"
| "is_Exception (SystemExit n) = False"

fun exn_str :: "exn \<Rightarrow> string" where
  "exn_str (Exception cls msg) = msg"
| "exn_str KeyboardInterrupt = []"
| "exn_str (SystemExit n) = []"

subsection \<open>The clock\<close>

text \<open>The fields of a \<^verbatim>\<open>datetime\<close> object that \<^verbatim>\<open>datetime.now()\<close> returns.\<close>

record datetime =
  year :: int
  month :: int
  day :: int
  hour :: int
  minute :: int
  second :: int
  microsecond :: int

text \<open>The ranges the \<^verbatim>\<open>datetime\<close> class enforces on its fields.\<close>

definition valid_datetime :: "datetime \<Rightarrow> bool" where
  "valid_datetime t \<longleftrightarrow>
     1 \<le> year t \<and> year t \<le> 9999 \<and> 1 \<le> month t \<and> month t \<le> 12 \<and>
     1 \<le> day t \<and> day t \<le> 31 \<and> 0 \<le> hour t \<and> hour t < 24 \<and>
     0 \<le> minute t \<and> minute t < 60 \<and> 0 \<le> second t \<and> second t < 60 \<and>
     0 \<le> microsecond t \<and> microsecond t < 1000000"

subsection \<open>The filesystem\<close>

text \<open>
  The filesystem maps the key of a node, the list of names that leads to it from the
  root \<^verbatim>\<open>/\<close>, to a directory or to a regular file with its content. An entry is meant
  to lie below a directory. There are no symbolic links, no limits on the length of a
  name, and the process may read and write everywhere.
\<close>

datatype node = Dir | File string

type_synonym path = "string list"
type_synonym filesystem = "path \<rightharpoonup> node"

text \<open>\<^verbatim>\<open>s.split('/')\<close>: the pieces between slashes, empty ones included.\<close>

fun split_sep :: "string \<Rightarrow> string list" where
  "split_sep [] = [[]]"
| "split_sep (c # cs) =
     (if c = CHR ''/'' then [] # split_sep cs
      else (case split_sep cs of [] \<Rightarrow> [[c]] | x # xs \<Rightarrow> (c # x) # xs))"

text \<open>The root always exists and is a directory.\<close>

definition lookup :: "filesystem \<Rightarrow> path \<Rightarrow> node option" where
  "lookup tree p = (if p = [] then Some Dir else tree p)"

text \<open>
  The kernel's walk along the pieces of a path, from a starting directory: before each
  piece the place reached must be a directory; an empty piece and \<^verbatim>\<open>.\<close> stay there,
  \<^verbatim>\<open>..\<close> goes to the parent (the root is its own parent), a name goes down.
\<close>

datatype errno = ENOENT | EEXIST | ENOTDIR | EISDIR

fun walk :: "filesystem \<Rightarrow> path \<Rightarrow> string list \<Rightarrow> errno + path" where
  "walk tree cur [] = Inr cur"
| "walk tree cur (c # cs) =
     (case lookup tree cur of
        None \<Rightarrow> Inl ENOENT
      | Some (File x) \<Rightarrow> Inl ENOTDIR
      | Some Dir \<Rightarrow>
          if c = [] \<or> c = ''.'' then walk tree cur cs
          else if c = ''..'' then walk tree (butlast cur) cs
          else walk tree (cur @ [c]) cs)"

text \<open>The pieces of a path without the empty ones that trailing slashes leave.\<close>

definition strip_empty :: "string list \<Rightarrow> string list" where
  "strip_empty cs = rev (dropWhile (\<lambda>c. c = []) (rev cs))"

subsection \<open>The trace of effects and the world\<close>

text \<open>
  Console output and calls to external collaborators are recorded in the order in which
  they happen. The options of a \<^verbatim>\<open>model.transcribe\<close> call are the keyword dictionary,
  an association list in insertion order.

  The world also says when the environment fails. \<open>console_fault\<close> gives, for the lines
  printed so far and the text to print, the class and message of the error that
  \<^verbatim>\<open>print\<close> raises, if it raises. \<open>write_fault\<close> gives, for an open file and the text to
  write, the error that \<^verbatim>\<open>f.write\<close> or the close at the end of the \<^verbatim>\<open>with\<close> block
  raises, and how much of the text reached the file. Both raise instances of
  \<^verbatim>\<open>Exception\<close>; an interrupt is modelled inside the engine's calls only.
\<close>

type_synonym options = "(string \<times> pyval) list"

datatype event =
    Print string
  | MakeDirs string
  | LoadModel pyval
  | Transcribe pyval options
  | OpenFile string

record world =
  fs :: filesystem
  cwd :: path
  clock :: datetime
  trace :: "event list"
  console_fault :: "string list \<Rightarrow> string \<Rightarrow> (string \<times> string) option"
  write_fault :: "path \<Rightarrow> string \<Rightarrow> ((string \<times> string) \<times> nat) option"

text \<open>
  A statement takes a world and ends with a value or an exception, in a new world.
  \<open>and_then\<close> runs the rest of a block after a statement that did not raise.
\<close>

type_synonym 'a io = "world \<Rightarrow> (exn + 'a) \<times> world"

definition and_then :: "'a io \<Rightarrow> ('a \<Rightarrow> 'b io) \<Rightarrow> 'b io" where
  "and_then m f w = (case m w of (Inl e, w1) \<Rightarrow> (Inl e, w1) | (Inr x, w1) \<Rightarrow> f x w1)"

definition return :: "'a \<Rightarrow> 'a io" where
  "return x w = (Inr x, w)"

text \<open>An expression that reads no state and may raise.\<close>

definition evaluate :: "exn + 'a \<Rightarrow> 'a io" where
  "evaluate r w = (r, w)"

definition emit :: "event \<Rightarrow> world \<Rightarrow> world" where
  "emit ev w = w\<lparr>trace := trace w @ [ev]\<rparr>"

definition console :: "world \<Rightarrow> string list" where
  "console w = concat (map (\<lambda>ev. case ev of Print s \<Rightarrow> [s] | _ \<Rightarrow> []) (trace w))"

text \<open>\<^verbatim>\<open>print(s)\<close>: one more line on the console, or the error of the console.\<close>

definition print :: "string \<Rightarrow> unit io" where
  "print s w =
     (case console_fault w (console w) s of
        None \<Rightarrow> (Inr (), emit (Print s) w)
      | Some (cls, msg) \<Rightarrow> (Inl (Exception cls msg), w))"

subsection \<open>Library functions of \<^verbatim>\<open>os\<close> and \<^verbatim>\<open>os.path\<close>\<close>

text \<open>
  \<^verbatim>\<open>os.path.join(a, *p)\<close> on a POSIX system: a component that starts with a slash
  replaces what was joined so far; otherwise it is appended, after a slash unless the
  path so far is empty or ends with one. A first argument that is no string is a
  \<^verbatim>\<open>TypeError\<close>.
\<close>

fun join_step :: "string \<Rightarrow> string \<Rightarrow> string" where
  "join_step path b =
     (if b \<noteq> [] \<and> hd b = CHR ''/'' then b
      else if path = [] \<or> last path = CHR ''/'' then path @ b
      else path @ ''/'' @ b)"

definition os_path_join :: "pyval \<Rightarrow> string list \<Rightarrow> exn + string" where
  "os_path_join a p =
     (case a of
        PyStr s \<Rightarrow> Inr (foldl join_step s p)
      | _ \<Rightarrow> Inl (Exception ''TypeError''
                 (''expected str, bytes or os.PathLike object, not '' @ type_name a)))"

text \<open>
  The errors of the system calls. An \<^verbatim>\<open>OSError\<close> carries the error number and the
  path as it was passed; its \<^verbatim>\<open>str()\<close> ends with the \<^verbatim>\<open>repr\<close> of the path. A path
  with a NUL character is refused before the call, with a \<^verbatim>\<open>ValueError\<close>.
\<close>

datatype fs_error = OSError errno string | NullByte

fun strerror :: "errno \<Rightarrow> string \<times> string" where
  "strerror ENOENT = (''FileNotFoundError'', ''[Errno 2] No such file or directory'')"
| "strerror EEXIST = (''FileExistsError'', ''[Errno 17] File exists'')"
| "strerror ENOTDIR = (''NotADirectoryError'', ''[Errno 20] Not a directory'')"
| "strerror EISDIR = (''IsADirectoryError'', ''[Errno 21] Is a directory'')"

fun raised :: "fs_error \<Rightarrow> exn" where
  "raised (OSError n name) =
     Exception (fst (strerror n)) (snd (strerror n) @ '': '' @ py_repr name)"
| "raised NullByte = Exception ''ValueError'' ''embedded null byte''"

fun is_OSError :: "fs_error \<Rightarrow> bool" where
  "is_OSError (OSError n name) = True"
| "is_OSError NullByte = False"

fun is_FileExistsError :: "fs_error \<Rightarrow> bool" where
  "is_FileExistsError (OSError n name) = (n = EEXIST)"
| "is_FileExistsError NullByte = False"

text \<open>A relative path starts at the working directory, an absolute one at the root.\<close>

definition start_dir :: "string \<Rightarrow> world \<Rightarrow> path" where
  "start_dir name w = (if name \<noteq> [] \<and> hd name = CHR ''/'' then [] else cwd w)"

text \<open>\<^verbatim>\<open>os.stat(name)\<close>: the node that the path names. The empty path names nothing.\<close>

definition os_stat :: "string \<Rightarrow> world \<Rightarrow> fs_error + node" where
  "os_stat name w =
     (if CHR 0x00 \<in> set name then Inl NullByte
      else if name = [] then Inl (OSError ENOENT name)
      else case walk (fs w) (start_dir name w) (split_sep name) of
             Inl n \<Rightarrow> Inl (OSError n name)
           | Inr p \<Rightarrow>
               (case lookup (fs w) p of
                  None \<Rightarrow> Inl (OSError ENOENT name)
                | Some x \<Rightarrow> Inr x))"

text \<open>\<^verbatim>\<open>os.path.exists\<close> and \<^verbatim>\<open>os.path.isdir\<close> call \<^verbatim>\<open>os.stat\<close> and answer
  \<^verbatim>\<open>False\<close> when it raises \<^verbatim>\<open>OSError\<close> or \<^verbatim>\<open>ValueError\<close>.\<close>

definition os_path_exists :: "string \<Rightarrow> world \<Rightarrow> bool" where
  "os_path_exists name w = (case os_stat name w of Inl e \<Rightarrow> False | Inr x \<Rightarrow> True)"

definition os_path_isdir :: "string \<Rightarrow> world \<Rightarrow> bool" where
  "os_path_isdir name w = (case os_stat name w of Inr Dir \<Rightarrow> True | _ \<Rightarrow> False)"

text \<open>
  \<^verbatim>\<open>os.mkdir(name)\<close>. Trailing slashes are ignored. The parent must be a directory;
  the last piece must be a name that is not taken.
\<close>

definition os_mkdir :: "string \<Rightarrow> world \<Rightarrow> (fs_error + unit) \<times> world" where
  "os_mkdir name w =
     (let cs = strip_empty (split_sep name) in
      if CHR 0x00 \<in> set name then (Inl NullByte, w)
      else if name = [] then (Inl (OSError ENOENT name), w)
      else if cs = [] then (Inl (OSError EEXIST name), w)
      else case walk (fs w) (start_dir name w) (butlast cs) of
             Inl n \<Rightarrow> (Inl (OSError n name), w)
           | Inr parent \<Rightarrow>
               (case lookup (fs w) parent of
                  None \<Rightarrow> (Inl (OSError ENOENT name), w)
                | Some (File x) \<Rightarrow> (Inl (OSError ENOTDIR name), w)
                | Some Dir \<Rightarrow>
                    if last cs = ''.'' \<or> last cs = ''..'' then (Inl (OSError EEXIST name), w)
                    else if lookup (fs w) (parent @ [last cs]) \<noteq> None
                      then (Inl (OSError EEXIST name), w)
                    else (Inr (), w\<lparr>fs := (fs w)(parent @ [last cs] \<mapsto> Dir)\<rparr>)))"

text \<open>
  \<^verbatim>\<open>os.path.split(p)\<close>: the part up to the last slash, without its trailing slashes
  unless it is made of slashes only, and the part after the last slash.
\<close>

definition posix_split :: "string \<Rightarrow> string \<times> string" where
  "posix_split p =
     (let tail = rev (takeWhile (\<lambda>c. c \<noteq> CHR ''/'') (rev p));
          head = rev (dropWhile (\<lambda>c. c \<noteq> CHR ''/'') (rev p))
      in (if head \<noteq> [] \<and> \<not> list_all (\<lambda>c. c = CHR ''/'') head
          then rev (dropWhile (\<lambda>c. c = CHR ''/'') (rev head))
          else head,
          tail))"

text \<open>
  \<^verbatim>\<open>os.makedirs(name, exist_ok=True)\<close> as the library has it. The name is split into
  head and tail, once more when the tail is empty. When the head does not exist it is
  made first, by the same function; a \<^verbatim>\<open>FileExistsError\<close> from there is passed over.
  Then \<^verbatim>\<open>os.mkdir(name)\<close>, whose \<^verbatim>\<open>OSError\<close> is dropped when the name is a directory
  by then.
\<close>

definition makedirs_split :: "string \<Rightarrow> string \<times> string" where
  "makedirs_split name =
     (if snd (posix_split name) = [] then posix_split (fst (posix_split name))
      else posix_split name)"

definition mkdir_exist_ok :: "string \<Rightarrow> world \<Rightarrow> (fs_error + unit) \<times> world" where
  "mkdir_exist_ok name w =
     (case os_mkdir name w of
        (Inl e, w1) \<Rightarrow>
          if is_OSError e \<and> os_path_isdir name w1 then (Inr (), w1) else (Inl e, w1)
      | (Inr u, w1) \<Rightarrow> (Inr (), w1))"

lemma posix_split_length:
  "length (fst (posix_split p)) + length (snd (posix_split p)) \<le> length p"
proof -
  have a: "length (takeWhile P (rev p)) + length (dropWhile P (rev p)) = length p" for P
    by (metis length_append length_rev takeWhile_dropWhile_id)
  have b: "length (dropWhile Q xs) \<le> length xs" for Q and xs :: string
    by (simp add: length_dropWhile_le)
  show ?thesis
    using a [of "\<lambda>c. c \<noteq> CHR ''/''"]
      b [of "\<lambda>c. c = CHR ''/''" "rev (rev (dropWhile (\<lambda>c. c \<noteq> CHR ''/'') (rev p)))"]
    by (simp add: posix_split_def Let_def)
qed

lemma makedirs_split_shorter:
  assumes "snd (makedirs_split name) \<noteq> []"
  shows "length (fst (makedirs_split name)) < length name"
proof (cases "snd (posix_split name) = []")
  case True
  then have ms: "makedirs_split name = posix_split (fst (posix_split name))"
    by (simp add: makedirs_split_def)
  with assms have "0 < length (snd (posix_split (fst (posix_split name))))" by simp
  with posix_split_length [of name] posix_split_length [of "fst (posix_split name)"]
  show ?thesis unfolding ms by linarith
next
  case False
  then have ms: "makedirs_split name = posix_split name"
    by (simp add: makedirs_split_def)
  with assms have "0 < length (snd (posix_split name))" by simp
  with posix_split_length [of name] show ?thesis unfolding ms by linarith
qed

function makedirs :: "string \<Rightarrow> world \<Rightarrow> (fs_error + unit) \<times> world" where
  "makedirs name w =
     (if fst (makedirs_split name) \<noteq> [] \<and> snd (makedirs_split name) \<noteq> []
         \<and> \<not> os_path_exists (fst (makedirs_split name)) w
      then
        (case makedirs (fst (makedirs_split name)) w of
           (Inl e, w1) \<Rightarrow>
             if is_FileExistsError e then
               (if snd (makedirs_split name) = ''.'' then (Inr (), w1)
                else mkdir_exist_ok name w1)
             else (Inl e, w1)
         | (Inr u, w1) \<Rightarrow>
             if snd (makedirs_split name) = ''.'' then (Inr (), w1)
             else mkdir_exist_ok name w1)
      else mkdir_exist_ok name w)"
  by pat_completeness auto

termination
  by (relation "measure (\<lambda>(name, w). length name)") (simp_all add: makedirs_split_shorter)

declare makedirs.simps [simp del]

definition os_makedirs :: "string \<Rightarrow> unit io" where
  "os_makedirs name w =
     (case makedirs name (emit (MakeDirs name) w) of
        (Inl e, w1) \<Rightarrow> (Inl (raised e), w1)
      | (Inr u, w1) \<Rightarrow> (Inr (), w1))"

text \<open>
  \<^verbatim>\<open>open(name, "w", encoding="utf-8")\<close>: the parent must be a directory and the name
  must not be one, nor end with a slash (\<open>open_target\<close> is the key of the file, or the
  error); then the file exists and is empty, whatever it held before. The open file is
  known by its key.
\<close>

definition open_target :: "string \<Rightarrow> world \<Rightarrow> fs_error + path" where
  "open_target name w =
     (let cs = strip_empty (split_sep name) in
      if CHR 0x00 \<in> set name then Inl NullByte
      else if name = [] then Inl (OSError ENOENT name)
      else if cs = [] then Inl (OSError EISDIR name)
      else case walk (fs w) (start_dir name w) (butlast cs) of
             Inl n \<Rightarrow> Inl (OSError n name)
           | Inr parent \<Rightarrow>
               (case lookup (fs w) parent of
                  None \<Rightarrow> Inl (OSError ENOENT name)
                | Some (File x) \<Rightarrow> Inl (OSError ENOTDIR name)
                | Some Dir \<Rightarrow>
                    if last cs = ''.'' \<or> last cs = ''..'' \<or> cs \<noteq> split_sep name
                         \<or> lookup (fs w) (parent @ [last cs]) = Some Dir
                      then Inl (OSError EISDIR name)
                    else Inr (parent @ [last cs])))"

definition open_w :: "string \<Rightarrow> path io" where
  "open_w name w =
     (let w1 = emit (OpenFile name) w in
      case open_target name w1 of
        Inl e \<Rightarrow> (Inl (raised e), w1)
      | Inr f \<Rightarrow> (Inr f, w1\<lparr>fs := (fs w1)(f \<mapsto> File [])\<rparr>))"

text \<open>
  \<^verbatim>\<open>f.write(v)\<close> on the open file, and the close at the end of the \<^verbatim>\<open>with\<close>
  block. A value that is no string is a \<^verbatim>\<open>TypeError\<close>. Otherwise the text is
  appended to what the file holds, unless the environment fails; then the error is
  raised and only a part of the text is in the file.
\<close>

definition appended :: "path \<Rightarrow> string \<Rightarrow> world \<Rightarrow> world" where
  "appended f text w =
     (case fs w f of
        Some (File old) \<Rightarrow> w\<lparr>fs := (fs w)(f \<mapsto> File (old @ text))\<rparr>
      | _ \<Rightarrow> w)"

definition file_write :: "path \<Rightarrow> pyval \<Rightarrow> unit io" where
  "file_write f v w =
     (case v of
        PyStr text \<Rightarrow>
          (case write_fault w f text of
             None \<Rightarrow> (Inr (), appended f text w)
           | Some ((cls, msg), k) \<Rightarrow> (Inl (Exception cls msg), appended f (take k text) w))
      | _ \<Rightarrow> (Inl (Exception ''TypeError''
                  (''write() argument must be str, not '' @ type_name v)), w))"


subsection \<open>Number formatting\<close>

text \<open>The format specification \<^verbatim>\<open>02d\<close>: decimal digits, zero-filled after the sign to a
  total width of two.\<close>

definition digit :: "nat \<Rightarrow> char" where
  "digit d = ''0123456789'' ! (d mod 10)"

fun dec :: "nat \<Rightarrow> string" where
  "dec n = (if n < 10 then [digit n] else dec (n div 10) @ [digit (n mod 10)])"

declare dec.simps [simp del]

definition zfill :: "nat \<Rightarrow> string \<Rightarrow> string" where
  "zfill w s = replicate (w - length s) CHR ''0'' @ s"

definition format_02d :: "int \<Rightarrow> string" where
  "format_02d x =
     (if x < 0 then ''-'' @ zfill 1 (dec (nat (- x))) else zfill 2 (dec (nat x)))"

section \<open>The Path Builder\<close>

text \<open>
  \<^verbatim>\<open>create_datetime_directory(base_dir)\<close>: read the clock, format the two directory
  levels and the stem, join, create the directories, return path and stem. Both
  \<^verbatim>\<open>os.path.join\<close> and \<^verbatim>\<open>os.makedirs\<close> may raise.
\<close>

definition create_datetime_directory :: "pyval \<Rightarrow> (string \<times> string) io" where
  "create_datetime_directory base_dir w =
     (let now = clock w;
          year_month = format_02d (year now mod 100) @ ''/'' @ format_02d (month now);
          day_hour = format_02d (day now) @ format_02d (hour now)
      in and_then (evaluate (os_path_join base_dir [year_month, day_hour])) (\<lambda>dir_path.
         and_then (os_makedirs dir_path) (\<lambda>u.
         return (dir_path, format_02d (minute now) @ format_02d (second now))))) w"

text \<open>
  The spec's words for one field: two decimal digits, the tens and the units. The
  spec's pattern: the base, a slash, the two-digit year, a slash, the two-digit month, a
  slash, the two-digit day and hour; and the stem, the two-digit minute and second.
  \<open>with_sep\<close> is the base with its slash as \<^verbatim>\<open>os.path.join\<close> puts it: none after an
  empty base or one that ends with a slash.
\<close>

definition two_digit_field :: "int \<Rightarrow> string" where
  "two_digit_field n = [digit (nat n div 10), digit (nat n mod 10)]"

definition is_digit :: "char \<Rightarrow> bool" where
  "is_digit c \<longleftrightarrow> c \<in> set ''0123456789''"

definition with_sep :: "string \<Rightarrow> string" where
  "with_sep base = (if base = [] \<or> last base = CHR ''/'' then base else base @ ''/'')"

definition dated_dir :: "string \<Rightarrow> datetime \<Rightarrow> string" where
  "dated_dir base t =
     with_sep base @ two_digit_field (year t mod 100) @ ''/'' @ two_digit_field (month t)
       @ ''/'' @ two_digit_field (day t) @ two_digit_field (hour t)"

definition dated_stem :: "datetime \<Rightarrow> string" where
  "dated_stem t = two_digit_field (minute t) @ two_digit_field (second t)"

section \<open>The Transcription Invoker\<close>

text \<open>
  The engine is an external collaborator: \<^verbatim>\<open>whisper.load_model(name)\<close> returns a model
  or raises, and \<^verbatim>\<open>model.transcribe(audio, **options)\<close> returns a dictionary or
  raises. Both are parameters of the model. The engine does not change the modelled
  filesystem and writes nothing to the console.
\<close>

type_synonym result = "(string \<times> pyval) list"
type_synonym model = "pyval \<Rightarrow> options \<Rightarrow> exn + result"
type_synonym engine = "pyval \<Rightarrow> exn + model"

definition load_model :: "engine \<Rightarrow> pyval \<Rightarrow> model io" where
  "load_model whisper name w = (whisper name, emit (LoadModel name) w)"

definition model_transcribe :: "model \<Rightarrow> pyval \<Rightarrow> options \<Rightarrow> result io" where
  "model_transcribe m a opts w = (m a opts, emit (Transcribe a opts) w)"

text \<open>The options dictionary of lines 34 to 38: each key is stored under a truthiness
  test of its value.\<close>

definition transcribe_options :: "pyval \<Rightarrow> pyval \<Rightarrow> options" where
  "transcribe_options language task =
     (let opts0 = [];
          opts1 = (if truthy language then AList.update ''language'' language opts0 else opts0);
          opts2 = (if truthy task then AList.update ''task'' task opts1 else opts1)
      in opts2)"

text \<open>\<^verbatim>\<open>result["text"]\<close>; the message of a \<^verbatim>\<open>KeyError\<close> is the key's \<^verbatim>\<open>repr\<close>.\<close>

definition getitem_text :: "result \<Rightarrow> exn + pyval" where
  "getitem_text r =
     (case map_of r ''text'' of
        None \<Rightarrow> Inl (Exception ''KeyError'' (py_repr ''text''))
      | Some t \<Rightarrow> Inr t)"

text \<open>
  The body of the \<^verbatim>\<open>try\<close> block of \<^verbatim>\<open>transcribe_audio\<close>, statement by statement. An
  exception ends the block at the statement that raised it, with the world as it was
  then. The file is opened before \<^verbatim>\<open>result["text"]\<close> is evaluated.
\<close>

definition transcribe_audio_try ::
  "engine \<Rightarrow> pyval \<Rightarrow> pyval \<Rightarrow> pyval \<Rightarrow> pyval \<Rightarrow> pyval \<Rightarrow> pyval io" where
  "transcribe_audio_try whisper audio_path model_name output_base_dir language task =
     and_then (create_datetime_directory output_base_dir) (\<lambda>(output_dir, time_suffix).
     and_then (print (''Loading model: '' @ py_str model_name)) (\<lambda>u.
     and_then (load_model whisper model_name) (\<lambda>model.
     and_then (print (''Transcribing: '' @ py_str audio_path)) (\<lambda>u.
     and_then (model_transcribe model audio_path (transcribe_options language task)) (\<lambda>result.
     and_then (evaluate (os_path_join (PyStr output_dir) [time_suffix @ ''.txt''])) (\<lambda>output_file.
     and_then (open_w output_file) (\<lambda>f.
     and_then (evaluate (getitem_text result)) (\<lambda>text.
     and_then (file_write f text) (\<lambda>u.
     and_then (print (''Transcription saved to: '' @ output_file)) (\<lambda>u.
     return (PyStr output_file)))))))))))"

text \<open>
  \<^verbatim>\<open>transcribe_audio\<close>: the \<^verbatim>\<open>try\<close> block under its handler
  \<^verbatim>\<open>except Exception as e\<close>, which prints and returns \<^verbatim>\<open>None\<close>. An exception that
  is not an instance of \<^verbatim>\<open>Exception\<close> is not matched and goes on to the caller, and so
  does an exception of the handler's own \<^verbatim>\<open>print\<close>.
\<close>

definition transcribe_audio ::
  "engine \<Rightarrow> pyval \<Rightarrow> pyval \<Rightarrow> pyval \<Rightarrow> pyval \<Rightarrow> pyval \<Rightarrow> pyval io" where
  "transcribe_audio whisper audio_path model_name output_base_dir language task w =
     (case transcribe_audio_try whisper audio_path model_name output_base_dir language task w of
        (Inr output_file, w1) \<Rightarrow> (Inr output_file, w1)
      | (Inl e, w1) \<Rightarrow>
          if is_Exception e
          then and_then (print (''Error transcribing audio: '' @ exn_str e))
                 (\<lambda>u. return PyNone) w1
          else (Inl e, w1))"

section \<open>The Argument Parser\<close>

text \<open>
  The parser that \<^verbatim>\<open>main\<close> builds, as data: one entry for each \<^verbatim>\<open>add_argument\<close>
  call, with its option strings (none for the positional), its destination, its
  default and its choices. Each takes one string (\<^verbatim>\<open>nargs=None\<close>) and keeps it as it is
  (\<^verbatim>\<open>type=str\<close>). \<^verbatim>\<open>ArgumentParser\<close> adds \<^verbatim>\<open>-h\<close> and \<^verbatim>\<open>--help\<close> itself. What
  \<^verbatim>\<open>argparse\<close> writes itself, the help and the usage message, is not part of the
  modelled console; it ignores errors of its own output.
\<close>

record argument =
  option_strings :: "string list"
  dest :: string
  default :: pyval
  choices :: "string list option"

definition parser_arguments :: "argument list" where
  "parser_arguments =
     [\<lparr>option_strings = [], dest = ''audio'', default = PyNone, choices = None\<rparr>,
      \<lparr>option_strings = [''--model''], dest = ''model'', default = PyStr ''tiny'',
         choices = None\<rparr>,
      \<lparr>option_strings = [''--output''], dest = ''output'', default = PyStr ''output'',
         choices = None\<rparr>,
      \<lparr>option_strings = [''--language''], dest = ''language'', default = PyNone,
         choices = None\<rparr>,
      \<lparr>option_strings = [''--task''], dest = ''task'', default = PyStr ''transcribe'',
         choices = Some [''transcribe'', ''translate'']\<rparr>]"

datatype action = Help | Store argument

definition option_string_actions :: "(string \<times> action) list" where
  "option_string_actions =
     [(''-h'', Help), (''--help'', Help)]
     @ concat (map (\<lambda>a. map (\<lambda>s. (s, Store a)) (option_strings a)) parser_arguments)"

text \<open>The namespace that \<^verbatim>\<open>parse_args\<close> returns, one attribute for each destination.\<close>

record namespace =
  audio :: pyval
  model :: pyval
  "output" :: pyval
  language :: pyval
  task :: pyval

definition setattr :: "string \<Rightarrow> pyval \<Rightarrow> namespace \<Rightarrow> namespace" where
  "setattr name v ns =
     (if name = ''audio'' then ns\<lparr>audio := v\<rparr>
      else if name = ''model'' then ns\<lparr>model := v\<rparr>
      else if name = ''output'' then ns\<lparr>output := v\<rparr>
      else if name = ''language'' then ns\<lparr>language := v\<rparr>
      else if name = ''task'' then ns\<lparr>task := v\<rparr>
      else ns)"

text \<open>Before any argument is read, every destination holds its default.\<close>

definition initial_namespace :: namespace where
  "initial_namespace =
     foldl (\<lambda>ns a. setattr (dest a) (default a) ns)
       \<lparr>audio = PyNone, model = PyNone, output = PyNone, language = PyNone, task = PyNone\<rparr>
       parser_arguments"

subsection \<open>Classifying one command-line string\<close>

text \<open>
  \<^verbatim>\<open>_parse_optional\<close> decides for each string whether it is a positional (\<open>None\<close>) or
  names an option, and then which action, under which option string, with which
  separator and explicit argument: an exact option string; \<^verbatim>\<open>--opt=value\<close>; an
  unambiguous prefix of a long option; \<^verbatim>\<open>-h\<close> with more letters attached. A string
  that starts with a dash and is none of these is a positional when it looks like a
  negative number or holds a space, and an unknown option otherwise. An error of the
  parser prints the usage and raises \<^verbatim>\<open>SystemExit(2)\<close>.
\<close>

definition usage_error :: exn where
  "usage_error = SystemExit 2"

type_synonym option_tuple = "action option \<times> string \<times> string option \<times> string option"

definition partition_eq :: "string \<Rightarrow> string \<times> string \<times> string" where
  "partition_eq a =
     (if CHR ''='' \<in> set a
      then (takeWhile (\<lambda>c. c \<noteq> CHR ''='') a, ''='', tl (dropWhile (\<lambda>c. c \<noteq> CHR ''='') a))
      else (a, [], []))"

definition startswith :: "string \<Rightarrow> string \<Rightarrow> bool" where
  "startswith s p \<longleftrightarrow> take (length p) s = p"

text \<open>The pattern \<^verbatim>\<open>^-\d+$|^-\d*\.\d+$\<close>; the \<^verbatim>\<open>$\<close> also matches before a newline that
  ends the string.\<close>

definition negative_number :: "string \<Rightarrow> bool" where
  "negative_number a0 =
     (let a = (if a0 \<noteq> [] \<and> last a0 = CHR 0x0A then butlast a0 else a0) in
      case a of
        [] \<Rightarrow> False
      | c # r \<Rightarrow>
          c = CHR ''-'' \<and>
          (let ds = takeWhile is_digit r; rest = dropWhile is_digit r
           in (ds \<noteq> [] \<and> rest = []) \<or>
              (case rest of
                 [] \<Rightarrow> False
               | d # es \<Rightarrow> d = CHR ''.'' \<and> es \<noteq> [] \<and> list_all is_digit es)))"

definition get_option_tuples :: "string \<Rightarrow> exn + option_tuple list" where
  "get_option_tuples a =
     (if length a < 2 then Inl (Exception ''IndexError'' ''string index out of range'')
      else if hd a = CHR ''-'' \<and> a ! 1 = CHR ''-'' then
        (case partition_eq a of
           (option_prefix, sep, explicit_arg) \<Rightarrow>
             Inr (map (\<lambda>(s, act). (Some act, s,
                         if sep = [] then None else Some sep,
                         if sep = [] then None else Some explicit_arg))
                    (filter (\<lambda>(s, act). startswith s option_prefix) option_string_actions)))
      else if hd a = CHR ''-'' \<and> a ! 1 \<noteq> CHR ''-'' then
        Inr (concat (map (\<lambda>(s, act).
               if s = take 2 a then [(Some act, s, Some [], Some (drop 2 a))]
               else if startswith s a then [(Some act, s, None, None)]
               else [])
             option_string_actions))
      else Inl usage_error)"

definition parse_optional :: "string \<Rightarrow> exn + option_tuple option" where
  "parse_optional a =
     (if a = [] then Inr None
      else if hd a \<noteq> CHR ''-'' then Inr None
      else (case map_of option_string_actions a of
        Some act \<Rightarrow> Inr (Some (Some act, a, None, None))
      | None \<Rightarrow>
          (if length a = 1 then Inr None
           else (case partition_eq a of
             (option_string, sep, explicit_arg) \<Rightarrow>
               (if sep \<noteq> [] \<and> map_of option_string_actions option_string \<noteq> None
                then Inr (Some (map_of option_string_actions option_string,
                                option_string, Some sep, Some explicit_arg))
                else (case get_option_tuples a of
                  Inl e \<Rightarrow> Inl e
                | Inr [] \<Rightarrow>
                    (if negative_number a then Inr None
                     else if CHR '' '' \<in> set a then Inr None
                     else Inr (Some (None, a, None, None)))
                | Inr [t] \<Rightarrow> Inr (Some t)
                | Inr (t # u # ts) \<Rightarrow> Inl usage_error))))))"

subsection \<open>Consuming the command line\<close>

text \<open>
  \<^verbatim>\<open>_parse_known_args\<close> first turns the command line into a pattern, one letter for
  each string: \<^verbatim>\<open>O\<close> for an option, \<^verbatim>\<open>A\<close> for an argument, \<^verbatim>\<open>-\<close> for the first
  \<^verbatim>\<open>--\<close>, after which every string is an \<^verbatim>\<open>A\<close>. An ambiguous abbreviation is
  found here, before anything is consumed.
\<close>

datatype part = PA | PO option_tuple | PDash

fun arg_strings_pattern :: "string list \<Rightarrow> exn + part list" where
  "arg_strings_pattern [] = Inr []"
| "arg_strings_pattern (a # rest) =
     (if a = ''--'' then Inr (PDash # map (\<lambda>x. PA) rest)
      else case parse_optional a of
        Inl e \<Rightarrow> Inl e
      | Inr t \<Rightarrow>
          (case arg_strings_pattern rest of
             Inl e \<Rightarrow> Inl e
           | Inr ps \<Rightarrow> Inr ((case t of None \<Rightarrow> PA | Some tup \<Rightarrow> PO tup) # ps)))"

text \<open>The state of the parse: the namespace, whether the positional \<^verbatim>\<open>audio\<close> has been
  consumed, and the strings nobody took.\<close>

record pstate =
  ns :: namespace
  seen_audio :: bool
  extras :: "string list"

text \<open>
  \<^verbatim>\<open>take_action\<close> for a storing argument: a positional drops the first \<^verbatim>\<open>--\<close> among
  its strings; a single string is the value, several are a list; a value outside the
  declared choices is an error; otherwise the destination is set.
\<close>

definition check_value :: "argument \<Rightarrow> string \<Rightarrow> bool" where
  "check_value a v = (case choices a of None \<Rightarrow> True | Some cs \<Rightarrow> v \<in> set cs)"

definition take_action :: "argument \<Rightarrow> string list \<Rightarrow> pstate \<Rightarrow> exn + pstate" where
  "take_action a argument_strings st =
     (case (if option_strings a = [] then remove1 ''--'' argument_strings
            else argument_strings) of
        [v] \<Rightarrow>
          if check_value a v then Inr (st\<lparr>ns := setattr (dest a) (PyStr v) (ns st)\<rparr>)
          else Inl usage_error
      | vs \<Rightarrow>
          if list_all (check_value a) vs
          then Inr (st\<lparr>ns := setattr (dest a) (PyList vs) (ns st)\<rparr>)
          else Inl usage_error)"

text \<open>
  The positional matches the pattern \<^verbatim>\<open>(-*A-*)\<close> at the front of what is left: one
  \<^verbatim>\<open>A\<close>, with the dashes before and after it.
\<close>

definition match_positional :: "part list \<Rightarrow> nat option" where
  "match_positional ps =
     (case dropWhile (\<lambda>p. p = PDash) ps of
        PA # rest \<Rightarrow>
          Some (length (takeWhile (\<lambda>p. p = PDash) ps) + 1
                + length (takeWhile (\<lambda>p. p = PDash) rest))
      | _ \<Rightarrow> None)"

definition consume_positionals ::
  "(string \<times> part) list \<Rightarrow> pstate \<Rightarrow> exn + (string \<times> part) list \<times> pstate" where
  "consume_positionals toks st =
     (if seen_audio st then Inr (toks, st)
      else case match_positional (map snd toks) of
        None \<Rightarrow> Inr (toks, st)
      | Some n \<Rightarrow>
          (case take_action (hd parser_arguments) (map fst (take n toks)) st of
             Inl e \<Rightarrow> Inl e
           | Inr st1 \<Rightarrow> Inr (drop n toks, st1\<lparr>seen_audio := True\<rparr>)))"

text \<open>
  The loop of \<^verbatim>\<open>consume_optional\<close> for an option that was recognised. With an explicit
  argument: an action that takes no argument, under a single-dash option string, reads
  the first letter of the argument as a further single-dash option and goes on with the
  rest (\<open>cluster_rest\<close>: nothing, or a separator \<^verbatim>\<open>=\<close> and what follows it, or more
  letters); an action that takes one argument takes it. Without: the action takes as many
  of the following strings as it needs, one for a storing argument, which must be an
  \<^verbatim>\<open>A\<close>. The result is the list of actions to take with their strings, the number
  of command-line strings used up, and the strings nobody took.
\<close>

fun takes_none :: "action \<Rightarrow> bool" where
  "takes_none Help = True"
| "takes_none (Store a) = False"

definition cluster_rest :: "string \<Rightarrow> string option \<times> string option" where
  "cluster_rest r =
     (if r = [] then (None, None)
      else if hd r = CHR ''='' then (Some ''='', Some (tl r))
      else (Some [], Some r))"

function option_loop ::
  "action \<Rightarrow> string \<Rightarrow> string option \<Rightarrow> string option \<Rightarrow> string option
     \<Rightarrow> exn + (action \<times> string list) list \<times> nat \<times> string list" where
  "option_loop act option_string sep None following =
     (if takes_none act then Inr ([(act, [])], 1, [])
      else case following of
             None \<Rightarrow> Inl usage_error
           | Some v \<Rightarrow> Inr ([(act, [v])], 2, []))"
| "option_loop act option_string sep (Some explicit_arg) following =
     (if takes_none act \<and> take 1 (drop 1 option_string) \<noteq> ''-'' \<and> explicit_arg \<noteq> [] then
        (if (sep \<noteq> None \<and> sep \<noteq> Some []) \<or> hd explicit_arg = CHR ''-'' then Inl usage_error
         else case map_of option_string_actions [CHR ''-'', hd explicit_arg] of
           None \<Rightarrow> Inr ([(act, [])], 1, [CHR ''-'' # explicit_arg])
         | Some act1 \<Rightarrow>
             (case option_loop act1 [CHR ''-'', hd explicit_arg]
                     (fst (cluster_rest (tl explicit_arg)))
                     (snd (cluster_rest (tl explicit_arg))) following of
                Inl e \<Rightarrow> Inl e
              | Inr (tuples, n, xs) \<Rightarrow> Inr ((act, []) # tuples, n, xs)))
      else if \<not> takes_none act then Inr ([(act, [explicit_arg])], 1, [])
      else Inl usage_error)"
  by pat_completeness auto

termination
  by (relation "measure (\<lambda>(act, s, sep, x, f). case x of None \<Rightarrow> 0 | Some e \<Rightarrow> Suc (length e))")
    (auto simp: cluster_rest_def split: if_splits)

text \<open>The actions are taken in order: help prints the help and raises
  \<^verbatim>\<open>SystemExit(0)\<close>; a storing argument stores.\<close>

fun run_actions :: "(action \<times> string list) list \<Rightarrow> pstate \<Rightarrow> exn + pstate" where
  "run_actions [] st = Inr st"
| "run_actions ((Help, args) # rest) st = Inl (SystemExit 0)"
| "run_actions ((Store a, args) # rest) st =
     (case take_action a args st of
        Inl e \<Rightarrow> Inl e
      | Inr st1 \<Rightarrow> run_actions rest st1)"

text \<open>\<^verbatim>\<open>consume_optional\<close> at an option: an unknown option is left over; a known one runs
  the loop and takes its actions.\<close>

definition consume_optional ::
  "(string \<times> part) list \<Rightarrow> pstate \<Rightarrow> exn + (string \<times> part) list \<times> pstate" where
  "consume_optional toks st =
     (case toks of
        (a, PO (None, option_string, sep, explicit_arg)) # rest \<Rightarrow>
          Inr (rest, st\<lparr>extras := extras st @ [a]\<rparr>)
      | (a, PO (Some act, option_string, sep, explicit_arg)) # rest \<Rightarrow>
          (case option_loop act option_string sep explicit_arg
                  (case rest of (v, PA) # rest1 \<Rightarrow> Some v | _ \<Rightarrow> None) of
             Inl e \<Rightarrow> Inl e
           | Inr (tuples, n, xs) \<Rightarrow>
               (case run_actions tuples (st\<lparr>extras := extras st @ xs\<rparr>) of
                  Inl e \<Rightarrow> Inl e
                | Inr st1 \<Rightarrow> Inr (drop n toks, st1)))
      | _ \<Rightarrow> Inr (drop 1 toks, st))"

text \<open>
  The main loop, while an option is left: positionals before the next option are
  consumed; if none could be, the strings before the option are left over; then the
  option is consumed.
\<close>

fun is_option :: "string \<times> part \<Rightarrow> bool" where
  "is_option (a, PO t) = True"
| "is_option (a, PA) = False"
| "is_option (a, PDash) = False"

declare option_loop.simps [simp del]

lemma option_loop_count:
  "option_loop act s sep x f = Inr (tuples, n, xs) \<Longrightarrow> 0 < n"
proof (induction act s sep x f arbitrary: tuples n xs rule: option_loop.induct)
  case (1 act option_string sep following)
  then show ?case
    by (subst (asm) option_loop.simps) (auto split: if_splits option.splits)
next
  case (2 act option_string sep explicit_arg following)
  from "2.prems" show ?case
    by (subst (asm) option_loop.simps)
      (auto split: if_splits option.splits sum.splits intro: "2.IH")
qed

lemma consume_optional_shorter:
  assumes "consume_optional toks st = Inr (toks1, st1)" and "toks \<noteq> []"
  shows "length toks1 < length toks"
  using assms
  by (auto simp: consume_optional_def dest: option_loop_count
      split: list.splits prod.splits part.splits option.splits sum.splits)

function parse_loop ::
  "(string \<times> part) list \<Rightarrow> pstate \<Rightarrow> exn + (string \<times> part) list \<times> pstate" where
  "parse_loop toks st =
     (if \<not> list_ex is_option toks then Inr (toks, st)
      else if is_option (hd toks) then
        (case consume_optional toks st of
           Inl e \<Rightarrow> Inl e
         | Inr (toks1, st1) \<Rightarrow> parse_loop toks1 st1)
      else
        (case consume_positionals toks st of
           Inl e \<Rightarrow> Inl e
         | Inr (toks1, st1) \<Rightarrow>
             if length toks1 < length toks then parse_loop toks1 st1
             else
               (case consume_optional (dropWhile (\<lambda>t. \<not> is_option t) toks)
                       (st1\<lparr>extras := extras st1
                              @ map fst (takeWhile (\<lambda>t. \<not> is_option t) toks)\<rparr>) of
                  Inl e \<Rightarrow> Inl e
                | Inr (toks2, st2) \<Rightarrow> parse_loop toks2 st2)))"
  by pat_completeness auto

termination
proof (relation "measure (\<lambda>(toks, st). length toks)", goal_cases)
  case 1
  show ?case by simp
next
  case (2 toks st x21 x y)
  then have "toks \<noteq> []" by auto
  with 2 show ?case using consume_optional_shorter by force
next
  case (3 toks st x21 x y)
  then show ?case by auto
next
  case (4 toks st x21 x y x21a xa ya)
  from 4(1,2) have "dropWhile (\<lambda>t. \<not> is_option t) toks \<noteq> []"
    by (simp add: list_ex_iff)
  with 4 have "length xa < length (dropWhile (\<lambda>t. \<not> is_option t) toks)"
    using consume_optional_shorter by blast
  moreover have "length (dropWhile (\<lambda>t. \<not> is_option t) toks) \<le> length toks"
    by (rule length_dropWhile_le)
  ultimately show ?case using 4 by auto
qed

declare parse_loop.simps [simp del]

text \<open>
  \<^verbatim>\<open>parser.parse_args()\<close> on the arguments after the program name: the pattern, the
  main loop, the positionals after the last option; then the positional is required,
  and strings that are left over are an error.
\<close>

definition parse_args :: "string list \<Rightarrow> exn + namespace" where
  "parse_args argv =
     (case arg_strings_pattern argv of
        Inl e \<Rightarrow> Inl e
      | Inr ps \<Rightarrow>
          (case parse_loop (zip argv ps)
                  \<lparr>ns = initial_namespace, seen_audio = False, extras = []\<rparr> of
             Inl e \<Rightarrow> Inl e
           | Inr (toks1, st1) \<Rightarrow>
               (case consume_positionals toks1 st1 of
                  Inl e \<Rightarrow> Inl e
                | Inr (toks2, st2) \<Rightarrow>
                    if \<not> seen_audio st2 then Inl usage_error
                    else if extras st2 @ map fst toks2 \<noteq> [] then Inl usage_error
                    else Inr (ns st2))))"

section \<open>The entry point\<close>

text \<open>
  \<^verbatim>\<open>os.path.exists(args.audio)\<close> on a value: a string is looked up, anything else is
  a \<^verbatim>\<open>TypeError\<close> of \<^verbatim>\<open>os.stat\<close>.
\<close>

definition exists_arg :: "pyval \<Rightarrow> bool io" where
  "exists_arg v w =
     (case v of
        PyStr s \<Rightarrow> (Inr (os_path_exists s w), w)
      | _ \<Rightarrow> (Inl (Exception ''TypeError''
                  (''stat: path should be string, bytes, os.PathLike or integer, not ''
                     @ type_name v)), w))"

text \<open>
  \<^verbatim>\<open>main()\<close>. \<^verbatim>\<open>sys.exit(1)\<close> raises \<^verbatim>\<open>SystemExit(1)\<close>; nothing in \<^verbatim>\<open>main\<close>
  catches an exception.
\<close>

definition sys_exit :: "int \<Rightarrow> unit io" where
  "sys_exit n w = (Inl (SystemExit n), w)"

definition main :: "engine \<Rightarrow> string list \<Rightarrow> unit io" where
  "main whisper argv =
     and_then (evaluate (parse_args argv)) (\<lambda>args.
     and_then (exists_arg (audio args)) (\<lambda>found.
     and_then (if \<not> found
               then and_then (print (''Error: Audio file '' @ py_str (audio args)
                                       @ '' does not exist''))
                      (\<lambda>u. sys_exit 1)
               else return ()) (\<lambda>u.
     and_then (transcribe_audio whisper (audio args) (model args) (output args)
                 (language args) (task args)) (\<lambda>output_file.
     if \<not> truthy output_file then sys_exit 1 else return ()))))"

text \<open>
  The exit status of the process that runs \<^verbatim>\<open>main()\<close> as the script does: 0 when
  \<^verbatim>\<open>main\<close> returns; the code of a \<^verbatim>\<open>SystemExit\<close>, of which the system keeps the low
  eight bits (255 for a code outside the range of a C \<^verbatim>\<open>long\<close>); 1 after the traceback
  of an uncaught \<^verbatim>\<open>Exception\<close>; and 130, as a shell reports it, after an uncaught
  \<^verbatim>\<open>KeyboardInterrupt\<close>.
\<close>

fun exit_code :: "exn + unit \<Rightarrow> int" where
  "exit_code (Inr u) = 0"
| "exit_code (Inl (SystemExit n)) =
     (if - (2 ^ 63) \<le> n \<and> n < 2 ^ 63 then n mod 256 else 255)"
| "exit_code (Inl (Exception cls msg)) = 1"
| "exit_code (Inl KeyboardInterrupt) = 130"

section \<open>Inputs of the examples and words of the claims\<close>

text \<open>The timestamp 2024-03-07 14:05:09 of the spec's scenario, and a world with an empty
  filesystem, the root as working directory, an empty console, and an environment that
  never fails.\<close>

definition t2024 :: datetime where
  "t2024 = \<lparr>year = 2024, month = 3, day = 7, hour = 14, minute = 5, second = 9,
             microsecond = 0\<rparr>"

definition empty_world :: "datetime \<Rightarrow> world" where
  "empty_world t = \<lparr>fs = Map.empty, cwd = [], clock = t, trace = [],
     console_fault = (\<lambda>printed s. None), write_fault = (\<lambda>f text. None)\<rparr>"

text \<open>Two timestamps in the same second: they may differ in the microsecond only.\<close>

definition same_second :: "datetime \<Rightarrow> datetime \<Rightarrow> bool" where
  "same_second t1 t2 \<longleftrightarrow>
     year t1 = year t2 \<and> month t1 = month t2 \<and> day t1 = day t2 \<and> hour t1 = hour t2 \<and>
     minute t1 = minute t2 \<and> second t1 = second t2"

text \<open>
  A plain name is a piece of a path that names an entry of a directory: not empty, not
  \<^verbatim>\<open>.\<close> or \<^verbatim>\<open>..\<close>, without a slash or a NUL character. The way along a list of names
  from a place is free when no regular file stands on it.
\<close>

definition plain_name :: "string \<Rightarrow> bool" where
  "plain_name c \<longleftrightarrow>
     c \<noteq> [] \<and> c \<noteq> ''.'' \<and> c \<noteq> ''..'' \<and> CHR ''/'' \<notin> set c \<and> CHR 0x00 \<notin> set c"

fun free_way :: "filesystem \<Rightarrow> path \<Rightarrow> string list \<Rightarrow> bool" where
  "free_way tree cur [] = True"
| "free_way tree cur (c # cs) =
     ((case tree (cur @ [c]) of Some (File x) \<Rightarrow> False | _ \<Rightarrow> True)
      \<and> free_way tree (cur @ [c]) cs)"

text \<open>
  What no statement of the script undoes: the working directory, the clock and the
  environment stay, a directory stays a directory, and the trace only grows.
\<close>

definition frame :: "world \<Rightarrow> world \<Rightarrow> bool" where
  "frame w w' \<longleftrightarrow>
     cwd w' = cwd w \<and> clock w' = clock w \<and> console_fault w' = console_fault w \<and>
     write_fault w' = write_fault w \<and>
     (\<forall>p. fs w p = Some Dir \<longrightarrow> fs w' p = Some Dir) \<and>
     (\<exists>evs. trace w' = trace w @ evs)"

text \<open>What \<^verbatim>\<open>os.makedirs\<close> does to the world at most: it adds directories.\<close>

definition grown :: "world \<Rightarrow> world \<Rightarrow> bool" where
  "grown w w' \<longleftrightarrow>
     cwd w' = cwd w \<and> clock w' = clock w \<and> console_fault w' = console_fault w \<and>
     write_fault w' = write_fault w \<and> trace w' = trace w \<and>
     (\<forall>p. fs w' p = fs w p \<or> (fs w p = None \<and> fs w' p = Some Dir))"

text \<open>The console works when \<^verbatim>\<open>print\<close> never raises.\<close>

definition console_works :: "world \<Rightarrow> bool" where
  "console_works w \<longleftrightarrow> (\<forall>printed s. console_fault w printed s = None)"

text \<open>A run adds events of one kind only.\<close>

definition adds :: "(event \<Rightarrow> bool) \<Rightarrow> world \<Rightarrow> world \<Rightarrow> bool" where
  "adds P w w' \<longleftrightarrow> (\<exists>evs. trace w' = trace w @ evs \<and> list_all P evs)"

text \<open>The events that a run adds to the trace.\<close>

definition new_events :: "world \<Rightarrow> world \<Rightarrow> event list" where
  "new_events w w' = drop (length (trace w)) (trace w')"

section \<open>Names for the stages of a transcription\<close>

text \<open>
  The \<^verbatim>\<open>try\<close> block in three stages: from the first \<^verbatim>\<open>print\<close> on (lines 29 to 48),
  from the second \<^verbatim>\<open>print\<close> on (lines 33 to 48), and the \<^verbatim>\<open>with\<close> block and what
  follows it (lines 44 to 48).
\<close>

definition save_stage :: "string \<Rightarrow> result \<Rightarrow> pyval io" where
  "save_stage output_file result =
     and_then (open_w output_file) (\<lambda>f.
     and_then (evaluate (getitem_text result)) (\<lambda>text.
     and_then (file_write f text) (\<lambda>u.
     and_then (print (''Transcription saved to: '' @ output_file)) (\<lambda>u.
     return (PyStr output_file)))))"

definition run_stage :: "model \<Rightarrow> pyval \<Rightarrow> pyval \<Rightarrow> pyval \<Rightarrow> string \<Rightarrow> string \<Rightarrow> pyval io" where
  "run_stage m audio_path lang tsk output_dir time_suffix =
     and_then (print (''Transcribing: '' @ py_str audio_path)) (\<lambda>u.
     and_then (model_transcribe m audio_path (transcribe_options lang tsk)) (\<lambda>result.
     and_then (evaluate (os_path_join (PyStr output_dir) [time_suffix @ ''.txt''])) (\<lambda>output_file.
     save_stage output_file result)))"

definition load_stage ::
  "engine \<Rightarrow> pyval \<Rightarrow> pyval \<Rightarrow> pyval \<Rightarrow> pyval \<Rightarrow> string \<Rightarrow> string \<Rightarrow> pyval io" where
  "load_stage whisper audio_path model_name lang tsk output_dir time_suffix =
     and_then (print (''Loading model: '' @ py_str model_name)) (\<lambda>u.
     and_then (load_model whisper model_name) (\<lambda>m.
     run_stage m audio_path lang tsk output_dir time_suffix))"

text \<open>The world after \<^verbatim>\<open>print(f"Loading model: {model_name}")\<close> and the call of
  \<^verbatim>\<open>whisper.load_model\<close>, when the console works.\<close>

definition loading_world :: "pyval \<Rightarrow> world \<Rightarrow> world" where
  "loading_world model_name w =
     emit (LoadModel model_name) (emit (Print (''Loading model: '' @ py_str model_name)) w)"

text \<open>The world after \<^verbatim>\<open>print(f"Transcribing: {audio_path}")\<close> and the call of
  \<^verbatim>\<open>model.transcribe\<close>, when the console works.\<close>

definition transcribing_world :: "pyval \<Rightarrow> options \<Rightarrow> world \<Rightarrow> world" where
  "transcribing_world audio_path opts w =
     emit (Transcribe audio_path opts) (emit (Print (''Transcribing: '' @ py_str audio_path)) w)"


text \<open>The spec's scenario: the working directory holds the audio file \<^verbatim>\<open>sample.wav\<close>,
  the clock reads 2024-03-07 14:05:09, the environment never fails, and the engine loads
  any model and returns the text \<^verbatim>\<open>hello world\<close>. \<open>sample_args\<close> is what the command
  line \<^verbatim>\<open>sample.wav\<close> parses to.\<close>

definition sample_world :: world where
  "sample_world = \<lparr>fs = [[''home''] \<mapsto> Dir, [''home'', ''sample.wav''] \<mapsto> File ''RIFF''],
     cwd = [''home''], clock = t2024, trace = [],
     console_fault = (\<lambda>printed s. None), write_fault = (\<lambda>f text. None)\<rparr>"

definition hello_engine :: engine where
  "hello_engine = (\<lambda>name. Inr (\<lambda>a opts. Inr [(''text'', PyStr ''hello world'')]))"

definition sample_args :: namespace where
  "sample_args = \<lparr>audio = PyStr ''sample.wav'', model = PyStr ''tiny'',
     output = PyStr ''output'', language = PyNone, task = PyStr ''transcribe''\<rparr>"

text \<open>An engine that cannot load the model, one that is interrupted from the keyboard
  while it loads, and one whose model calls \<^verbatim>\<open>sys.exit(3)\<close> while it transcribes.\<close>

definition broken_engine :: engine where
  "broken_engine = (\<lambda>name. Inl (Exception ''RuntimeError'' ''Model tiny not found''))"

definition interrupted_engine :: engine where
  "interrupted_engine = (\<lambda>name. Inl KeyboardInterrupt)"

definition exiting_engine :: engine where
  "exiting_engine = (\<lambda>name. Inr (\<lambda>a opts. Inl (SystemExit 3)))"

text \<open>A world like the sample whose console is closed: every \<^verbatim>\<open>print\<close> raises.\<close>

definition mute_world :: world where
  "mute_world = sample_world\<lparr>console_fault :=
     (\<lambda>printed s. Some (''ValueError'', ''I/O operation on closed file.''))\<rparr>"

section \<open>Formatting and joining\<close>

lemma dec_small: "n < 10 \<Longrightarrow> dec n = [digit n]"
  by (subst dec.simps) simp

lemma dec_two: "10 \<le> n \<Longrightarrow> n < 100 \<Longrightarrow> dec n = [digit (n div 10), digit (n mod 10)]"
  by (subst dec.simps) (simp add: dec_small)

lemma digit_zero: "digit 0 = CHR ''0''"
  by (simp add: digit_def)

lemma format_02d_field:
  assumes "0 \<le> x" "x < 100"
  shows "format_02d x = two_digit_field x"
proof (cases "nat x < 10")
  case True
  then show ?thesis using assms
    by (simp add: format_02d_def two_digit_field_def zfill_def dec_small digit_zero)
next
  case False
  then have "10 \<le> nat x" "nat x < 100" using assms by auto
  then show ?thesis using assms
    by (simp add: format_02d_def two_digit_field_def zfill_def dec_two)
qed

lemma digit_is_digit: "is_digit (digit d)"
  unfolding digit_def is_digit_def by (rule nth_mem) simp

lemma is_digit_plain: "is_digit c \<Longrightarrow> c \<noteq> CHR ''/'' \<and> c \<noteq> CHR ''.'' \<and> c \<noteq> CHR 0x00"
  by (auto simp: is_digit_def)

lemma dec_digits: "dec n \<noteq> [] \<and> list_all is_digit (dec n)"
proof (induction n rule: dec.induct)
  case (1 n)
  show ?case
  proof (cases "n < 10")
    case True
    then show ?thesis by (simp add: dec_small digit_is_digit)
  next
    case False
    with 1 show ?thesis by (subst (1 2) dec.simps) (simp add: digit_is_digit)
  qed
qed

lemma format_02d_nonempty: "format_02d x \<noteq> []"
  using dec_digits by (simp add: format_02d_def zfill_def)

lemma format_02d_chars:
  "c \<in> set (format_02d x) \<Longrightarrow> c \<noteq> CHR ''/'' \<and> c \<noteq> CHR ''.'' \<and> c \<noteq> CHR 0x00"
proof -
  assume c: "c \<in> set (format_02d x)"
  have "c \<in> set (dec n) \<Longrightarrow> is_digit c" for n
    using dec_digits [of n] by (auto simp: list_all_iff)
  with c have "is_digit c \<or> c = CHR ''-'' \<or> c = CHR ''0''"
    by (auto simp: format_02d_def zfill_def split: if_splits)
  then show ?thesis using is_digit_plain by auto
qed

lemma format_02d_no_sep: "CHR ''/'' \<notin> set (format_02d x)"
  using format_02d_chars by blast

lemma hd_format_02d: "hd (format_02d x) \<noteq> CHR ''/''"
  using format_02d_no_sep [of x] format_02d_nonempty [of x] by (cases "format_02d x") auto

lemma last_format_02d: "last (format_02d x) \<noteq> CHR ''/''"
  using format_02d_no_sep [of x] format_02d_nonempty [of x] last_in_set by metis

lemma plain_name_chars:
  assumes "c \<noteq> []" and "\<And>x. x \<in> set c \<Longrightarrow> x \<noteq> CHR ''/'' \<and> x \<noteq> CHR ''.'' \<and> x \<noteq> CHR 0x00"
  shows "plain_name c"
proof -
  have "c \<noteq> ''.''" "c \<noteq> ''..''" using assms(2) by auto
  with assms show ?thesis by (auto simp: plain_name_def)
qed

lemma format_02d_plain: "plain_name (format_02d x)" "plain_name (format_02d x @ format_02d y)"
proof -
  show "plain_name (format_02d x)"
  proof (rule plain_name_chars)
    show "format_02d x \<noteq> []" by (rule format_02d_nonempty)
    fix c assume "c \<in> set (format_02d x)"
    then show "c \<noteq> CHR ''/'' \<and> c \<noteq> CHR ''.'' \<and> c \<noteq> CHR 0x00" by (rule format_02d_chars)
  qed
  show "plain_name (format_02d x @ format_02d y)"
  proof (rule plain_name_chars)
    show "format_02d x @ format_02d y \<noteq> []" using format_02d_nonempty by simp
    fix c assume "c \<in> set (format_02d x @ format_02d y)"
    then have "c \<in> set (format_02d x) \<or> c \<in> set (format_02d y)" by simp
    then show "c \<noteq> CHR ''/'' \<and> c \<noteq> CHR ''.'' \<and> c \<noteq> CHR 0x00"
      using format_02d_chars by blast
  qed
qed

lemma two_digit_field_digits: "length (two_digit_field n) = 2 \<and> list_all is_digit (two_digit_field n)"
  by (simp add: two_digit_field_def digit_is_digit)

text \<open>The directory that \<^verbatim>\<open>os.path.join\<close> makes of a base and the two levels: a prefix
  that is empty or ends with a slash, and the levels.\<close>

lemma join_dir_path:
  "os_path_join (PyStr base) [format_02d y @ CHR ''/'' # format_02d m, format_02d d @ format_02d h]
     = Inr (with_sep base @ format_02d y @ CHR ''/'' # format_02d m @ CHR ''/'' # format_02d d @ format_02d h)"
  using hd_format_02d [of y] hd_format_02d [of d] last_format_02d [of m]
    format_02d_nonempty [of y] format_02d_nonempty [of m] format_02d_nonempty [of d]
  by (simp add: os_path_join_def with_sep_def)

lemma os_path_join_Inr: "os_path_join a p = Inr d \<Longrightarrow> \<exists>s. a = PyStr s"
  by (cases a) (simp_all add: os_path_join_def)

lemma os_path_join_Inl: "os_path_join a p = Inl e \<Longrightarrow> is_Exception e"
  by (cases a) (auto simp: os_path_join_def)

section \<open>Statements in sequence\<close>

lemma and_then_Inl: "m w = (Inl e, w1) \<Longrightarrow> and_then m f w = (Inl e, w1)"
  by (simp add: and_then_def)

lemma and_then_Inr: "m w = (Inr x, w1) \<Longrightarrow> and_then m f w = f x w1"
  by (simp add: and_then_def)

lemma and_then_cases:
  assumes "and_then m f w = (r, w')"
  obtains (raised) e where "m w = (Inl e, w')" "r = Inl e"
  | (went_on) x w1 where "m w = (Inr x, w1)" "f x w1 = (r, w')"
proof -
  obtain r0 w1 where m: "m w = (r0, w1)" by (cases "m w")
  show thesis
  proof (cases r0)
    case (Inl e)
    with m assms have "m w = (Inl e, w')" "r = Inl e" by (simp_all add: and_then_def)
    then show thesis by (rule raised)
  next
    case (Inr x)
    with m assms have "m w = (Inr x, w1)" "f x w1 = (r, w')" by (simp_all add: and_then_def)
    then show thesis by (rule went_on)
  qed
qed

lemma return_simp: "return x w = (Inr x, w)"
  by (simp add: return_def)

lemma evaluate_simp: "evaluate r w = (r, w)"
  by (simp add: evaluate_def)

lemma emit_simps: "fs (emit ev w) = fs w" "cwd (emit ev w) = cwd w" "clock (emit ev w) = clock w"
  "trace (emit ev w) = trace w @ [ev]" "console_fault (emit ev w) = console_fault w"
  "write_fault (emit ev w) = write_fault w"
  by (simp_all add: emit_def)

lemma frame_refl: "frame w w"
  by (simp add: frame_def)

lemma frame_trans: "frame a b \<Longrightarrow> frame b c \<Longrightarrow> frame a c"
  by (auto simp: frame_def)

lemma frame_emit: "frame w (emit ev w)"
  by (simp add: frame_def emit_simps)

lemma frame_and_then:
  assumes "and_then m f w = (r, w')"
    and "\<And>r1 w1. m w = (r1, w1) \<Longrightarrow> frame w w1"
    and "\<And>x w1 r2 w2. m w = (Inr x, w1) \<Longrightarrow> f x w1 = (r2, w2) \<Longrightarrow> frame w1 w2"
  shows "frame w w'"
  using assms(1)
proof (cases rule: and_then_cases)
  case (raised e)
  then show ?thesis using assms(2) by blast
next
  case (went_on x w1)
  then show ?thesis using assms(2,3) frame_trans by blast
qed

section \<open>Paths and the walk\<close>

lemma split_sep_nonempty: "split_sep s \<noteq> []"
  by (induction s) (auto split: list.splits)

lemma split_sep_plain: "CHR ''/'' \<notin> set t \<Longrightarrow> split_sep t = [t]"
  by (induction t) (auto split: list.splits)

lemma split_sep_append:
  "CHR ''/'' \<notin> set t \<Longrightarrow> split_sep (h @ CHR ''/'' # t) = split_sep h @ [t]"
proof (induction h)
  case Nil
  then show ?case by (simp add: split_sep_plain)
next
  case (Cons c cs)
  then show ?case using split_sep_nonempty [of cs]
    by (cases "split_sep cs") auto
qed

lemma strip_empty_last: "t \<noteq> [] \<Longrightarrow> strip_empty (cs @ [t]) = cs @ [t]"
  by (simp add: strip_empty_def)

lemma walk_append:
  "walk tree cur (xs @ ys) = (case walk tree cur xs of Inl e \<Rightarrow> Inl e | Inr p \<Rightarrow> walk tree p ys)"
proof (induction xs arbitrary: cur)
  case Nil
  then show ?case by simp
next
  case (Cons c cs)
  show ?case
  proof (cases "lookup tree cur")
    case None
    then show ?thesis by simp
  next
    case (Some n)
    then show ?thesis using Cons.IH by (cases n) simp_all
  qed
qed

lemma lookup_mono:
  "lookup tree q = Some Dir \<Longrightarrow> \<forall>p. tree p = Some Dir \<longrightarrow> tree' p = Some Dir
   \<Longrightarrow> lookup tree' q = Some Dir"
  by (auto simp: lookup_def split: if_splits)

lemma walk_mono:
  assumes "walk tree cur xs = Inr p" and m: "\<forall>p. tree p = Some Dir \<longrightarrow> tree' p = Some Dir"
  shows "walk tree' cur xs = Inr p"
  using assms(1)
proof (induction xs arbitrary: cur)
  case Nil
  then show ?case by simp
next
  case (Cons c cs)
  from Cons.prems have d: "lookup tree cur = Some Dir"
    by (auto split: option.splits node.splits)
  then have d': "lookup tree' cur = Some Dir" using m by (rule lookup_mono)
  consider (stay) "c = [] \<or> c = ''.''" | (up) "c = ''..''"
    | (down) "c \<noteq> []" "c \<noteq> ''.''" "c \<noteq> ''..''" by blast
  then show ?case
  proof cases
    case stay
    with Cons.prems d have "walk tree cur cs = Inr p" by auto
    from Cons.IH [OF this] d' stay show ?thesis by auto
  next
    case up
    with Cons.prems d have "walk tree (butlast cur) cs = Inr p" by simp
    from Cons.IH [OF this] d' up show ?thesis by simp
  next
    case down
    with Cons.prems d have "walk tree (cur @ [c]) cs = Inr p" by simp
    from Cons.IH [OF this] d' down show ?thesis by simp
  qed
qed

lemma walk_step_plain:
  "plain_name t \<Longrightarrow> walk tree cur [t]
     = (case lookup tree cur of None \<Rightarrow> Inl ENOENT | Some (File x) \<Rightarrow> Inl ENOTDIR
        | Some Dir \<Rightarrow> Inr (cur @ [t]))"
  by (auto simp: plain_name_def split: option.splits node.splits)

lemma walk_plain:
  "list_all plain_name cs \<Longrightarrow> walk tree cur cs = Inr p \<Longrightarrow> p = cur @ cs"
proof (induction cs arbitrary: cur)
  case Nil
  then show ?case by simp
next
  case (Cons c cs)
  from Cons.prems have "walk tree (cur @ [c]) cs = Inr p"
    by (auto simp: plain_name_def split: option.splits node.splits)
  from Cons.IH [OF _ this] Cons.prems show ?case by simp
qed

lemma start_dir_append: "h \<noteq> [] \<Longrightarrow> start_dir (h @ x) w = start_dir h w"
  by (simp add: start_dir_def)

lemma start_dir_fs: "start_dir name (w\<lparr>fs := t\<rparr>) = start_dir name w"
  by (simp add: start_dir_def)

lemma posix_split_plain:
  assumes "CHR ''/'' \<notin> set t"
  shows "posix_split t = ([], t)"
proof -
  have 1: "takeWhile (\<lambda>c. c \<noteq> CHR ''/'') (rev t) = rev t"
    using assms by auto
  have 2: "dropWhile (\<lambda>c. c \<noteq> CHR ''/'') (rev t) = []"
    using assms by auto
  show ?thesis unfolding posix_split_def Let_def 1 2 by simp
qed

lemma posix_split_child:
  assumes t: "CHR ''/'' \<notin> set t" and h: "h \<noteq> []" "last h \<noteq> CHR ''/''"
  shows "posix_split (h @ CHR ''/'' # t) = (h, t)"
proof -
  have r: "rev (h @ CHR ''/'' # t) = rev t @ CHR ''/'' # rev h" by simp
  have tw: "takeWhile (\<lambda>c. c \<noteq> CHR ''/'') (rev t @ CHR ''/'' # rev h) = rev t"
    using t by (subst takeWhile_append2) auto
  have dw: "dropWhile (\<lambda>c. c \<noteq> CHR ''/'') (rev t @ CHR ''/'' # rev h) = CHR ''/'' # rev h"
    using t by (subst dropWhile_append2) auto
  from h obtain a as where ra: "rev h = a # as" "a \<noteq> CHR ''/''"
    by (cases h rule: rev_cases) auto
  then have h': "h = rev as @ [a]" by (metis rev.simps(2) rev_rev_ident)
  have strip: "dropWhile (\<lambda>c. c = CHR ''/'') (CHR ''/'' # rev h) = rev h"
    using ra by simp
  have notall: "\<not> list_all (\<lambda>c. c = CHR ''/'') (h @ ''/'')"
    using ra h' by simp
  show ?thesis
    unfolding posix_split_def r Let_def tw dw
    using strip notall by simp
qed

lemma makedirs_split_plain:
  "CHR ''/'' \<notin> set t \<Longrightarrow> t \<noteq> [] \<Longrightarrow> makedirs_split t = ([], t)"
  by (simp add: makedirs_split_def posix_split_plain)

lemma makedirs_split_child:
  "CHR ''/'' \<notin> set t \<Longrightarrow> t \<noteq> [] \<Longrightarrow> h \<noteq> [] \<Longrightarrow> last h \<noteq> CHR ''/''
   \<Longrightarrow> makedirs_split (h @ CHR ''/'' # t) = (h, t)"
  by (simp add: makedirs_split_def posix_split_child)

section \<open>The system calls on a path that ends with a plain name\<close>

lemma os_stat_last:
  assumes "split_sep name = cs @ [t]" and "plain_name t" and "CHR 0x00 \<notin> set name"
  shows "os_stat name w =
     (case walk (fs w) (start_dir name w) cs of
        Inl n \<Rightarrow> Inl (OSError n name)
      | Inr p \<Rightarrow>
          (case lookup (fs w) p of
             None \<Rightarrow> Inl (OSError ENOENT name)
           | Some (File x) \<Rightarrow> Inl (OSError ENOTDIR name)
           | Some Dir \<Rightarrow>
               (case lookup (fs w) (p @ [t]) of
                  None \<Rightarrow> Inl (OSError ENOENT name)
                | Some n \<Rightarrow> Inr n)))"
proof -
  from assms(1,2) have ne: "name \<noteq> []" by (cases name) (auto simp: plain_name_def)
  have "walk (fs w) (start_dir name w) (cs @ [t])
      = (case walk (fs w) (start_dir name w) cs of
           Inl e \<Rightarrow> Inl e
         | Inr p \<Rightarrow> (case lookup (fs w) p of None \<Rightarrow> Inl ENOENT
                     | Some (File x) \<Rightarrow> Inl ENOTDIR | Some Dir \<Rightarrow> Inr (p @ [t])))"
    by (simp only: walk_append walk_step_plain [OF assms(2)])
  then show ?thesis
    using assms(1,3) ne
    by (auto simp add: os_stat_def simp del: walk.simps
        split: sum.splits option.splits node.splits)
qed

lemma os_mkdir_last:
  assumes "split_sep name = cs @ [t]" and "plain_name t" and "CHR 0x00 \<notin> set name"
  shows "os_mkdir name w =
     (case walk (fs w) (start_dir name w) cs of
        Inl n \<Rightarrow> (Inl (OSError n name), w)
      | Inr p \<Rightarrow>
          (case lookup (fs w) p of
             None \<Rightarrow> (Inl (OSError ENOENT name), w)
           | Some (File x) \<Rightarrow> (Inl (OSError ENOTDIR name), w)
           | Some Dir \<Rightarrow>
               if lookup (fs w) (p @ [t]) \<noteq> None then (Inl (OSError EEXIST name), w)
               else (Inr (), w\<lparr>fs := (fs w)(p @ [t] \<mapsto> Dir)\<rparr>)))"
proof -
  from assms(1,2) have ne: "name \<noteq> []" by (cases name) (auto simp: plain_name_def)
  from assms(2) have t: "t \<noteq> []" "t \<noteq> ''.''" "t \<noteq> ''..''" by (auto simp: plain_name_def)
  show ?thesis
    using assms(1,3) ne t
    by (auto simp add: os_mkdir_def Let_def strip_empty_last
        split: sum.splits option.splits node.splits)
qed

lemma os_mkdir_Inl: "os_mkdir name w = (Inl e, w1) \<Longrightarrow> w1 = w"
  by (auto simp: os_mkdir_def Let_def split: if_splits sum.splits option.splits node.splits)

lemma os_mkdir_Inr:
  assumes "os_mkdir name w = (Inr u, w1)"
  shows "\<exists>k. fs w k = None \<and> w1 = w\<lparr>fs := (fs w)(k \<mapsto> Dir)\<rparr>"
  using assms
  by (auto simp: os_mkdir_def Let_def lookup_def
      split: if_splits sum.splits option.splits node.splits)

lemma grown_refl: "grown w w"
  by (simp add: grown_def)

lemma grown_trans: "grown a b \<Longrightarrow> grown b c \<Longrightarrow> grown a c"
  unfolding grown_def by (metis option.distinct(1))

lemma grown_frame: "grown w w' \<Longrightarrow> frame w w'"
  by (auto simp: grown_def frame_def) (metis option.distinct(1))

lemma os_mkdir_grown: "os_mkdir name w = (r, w1) \<Longrightarrow> grown w w1"
proof (cases r)
  case (Inl e)
  assume "os_mkdir name w = (r, w1)"
  with Inl have "w1 = w" using os_mkdir_Inl by blast
  then show ?thesis by (simp add: grown_refl)
next
  case (Inr u)
  assume "os_mkdir name w = (r, w1)"
  with Inr obtain k where "fs w k = None" "w1 = w\<lparr>fs := (fs w)(k \<mapsto> Dir)\<rparr>"
    using os_mkdir_Inr by blast
  then show ?thesis by (simp add: grown_def)
qed

lemma mkdir_exist_ok_grown: "mkdir_exist_ok name w = (r, w1) \<Longrightarrow> grown w w1"
proof -
  assume a: "mkdir_exist_ok name w = (r, w1)"
  obtain r0 w0 where m: "os_mkdir name w = (r0, w0)" by (cases "os_mkdir name w")
  with a have "w1 = w0" by (cases r0) (auto simp: mkdir_exist_ok_def split: if_splits)
  with os_mkdir_grown [OF m] show ?thesis by simp
qed

lemma makedirs_grown: "makedirs name w = (r, w1) \<Longrightarrow> grown w w1"
proof (induction name w arbitrary: r w1 rule: makedirs.induct)
  case (1 name w)
  let ?h = "fst (makedirs_split name)" and ?t = "snd (makedirs_split name)"
  show ?case
  proof (cases "?h \<noteq> [] \<and> ?t \<noteq> [] \<and> \<not> os_path_exists ?h w")
    case False
    with "1.prems" have "mkdir_exist_ok name w = (r, w1)"
      by (subst (asm) makedirs.simps) auto
    then show ?thesis by (rule mkdir_exist_ok_grown)
  next
    case True
    obtain r0 w0 where m: "makedirs ?h w = (r0, w0)" by (cases "makedirs ?h w")
    have g0: "grown w w0" using "1.IH" True m by blast
    from "1.prems" True m have "(r, w1) = (r0, w0) \<or> (r, w1) = (Inr (), w0)
        \<or> mkdir_exist_ok name w0 = (r, w1)"
      by (subst (asm) makedirs.simps) (auto split: sum.splits if_splits)
    then show ?thesis
      using g0 mkdir_exist_ok_grown grown_trans by blast
  qed
qed

lemma os_path_isdir_stat: "os_path_isdir name w \<longleftrightarrow> os_stat name w = Inr Dir"
  by (auto simp: os_path_isdir_def split: sum.splits node.splits)

lemma os_path_exists_stat: "os_path_exists name w \<longleftrightarrow> (\<exists>n. os_stat name w = Inr n)"
  by (auto simp: os_path_exists_def split: sum.splits)

lemma os_path_isdir_exists: "os_path_isdir name w \<Longrightarrow> os_path_exists name w"
  by (simp add: os_path_isdir_stat os_path_exists_stat)

lemma os_stat_nul: "os_stat name w = Inr n \<Longrightarrow> CHR 0x00 \<notin> set name \<and> name \<noteq> []"
  by (auto simp: os_stat_def split: if_splits)

text \<open>A directory stays one when directories stay.\<close>

lemma os_path_isdir_mono:
  assumes "os_path_isdir name w" and "cwd w' = cwd w"
    and m: "\<forall>p. fs w p = Some Dir \<longrightarrow> fs w' p = Some Dir"
  shows "os_path_isdir name w'"
proof -
  from assms(1) have s: "os_stat name w = Inr Dir" by (simp add: os_path_isdir_stat)
  note n = os_stat_nul [OF s]
  from s n obtain p where p: "walk (fs w) (start_dir name w) (split_sep name) = Inr p"
    "lookup (fs w) p = Some Dir"
    by (auto simp: os_stat_def split: sum.splits option.splits)
  have sd: "start_dir name w' = start_dir name w" using assms(2) by (simp add: start_dir_def)
  from walk_mono [OF p(1) m] lookup_mono [OF p(2) m] n sd
  show ?thesis by (simp add: os_path_isdir_stat os_stat_def)
qed

lemma os_path_isdir_frame: "os_path_isdir name w \<Longrightarrow> frame w w' \<Longrightarrow> os_path_isdir name w'"
  using os_path_isdir_mono by (simp add: frame_def)

section \<open>Directory creation\<close>

lemma mkdir_exist_ok_isdir:
  assumes s: "split_sep name = cs @ [t]" and t: "plain_name t"
    and m: "mkdir_exist_ok name w = (Inr u, w1)"
  shows "os_path_isdir name w1"
proof -
  obtain r0 w0 where k: "os_mkdir name w = (r0, w0)" by (cases "os_mkdir name w")
  show ?thesis
  proof (cases r0)
    case (Inl e)
    with m k show ?thesis by (auto simp: mkdir_exist_ok_def split: if_splits)
  next
    case (Inr u0)
    with m k have w1: "w1 = w0" by (simp add: mkdir_exist_ok_def)
    from k Inr have nul: "CHR 0x00 \<notin> set name"
      by (auto simp: os_mkdir_def Let_def split: if_splits)
    from k Inr obtain p where p: "walk (fs w) (start_dir name w) cs = Inr p"
      "lookup (fs w) p = Some Dir" "lookup (fs w) (p @ [t]) = None"
      "w0 = w\<lparr>fs := (fs w)(p @ [t] \<mapsto> Dir)\<rparr>"
      unfolding os_mkdir_last [OF s t nul]
      by (auto split: sum.splits option.splits node.splits if_splits)
    let ?tree = "(fs w)(p @ [t] \<mapsto> Dir)"
    have mono: "\<forall>q. fs w q = Some Dir \<longrightarrow> ?tree q = Some Dir" by simp
    have a: "walk ?tree (start_dir name w) cs = Inr p" using p(1) mono by (rule walk_mono)
    have b: "lookup ?tree p = Some Dir" using p(2) mono by (rule lookup_mono)
    have c: "lookup ?tree (p @ [t]) = Some Dir" by (simp add: lookup_def)
    have "os_stat name w0 = Inr Dir"
      unfolding os_stat_last [OF s t nul] p(4) using a b c by (simp add: start_dir_fs)
    then show ?thesis using w1 by (simp add: os_path_isdir_stat)
  qed
qed

lemma mkdir_exist_ok_again:
  assumes s: "split_sep name = cs @ [t]" and t: "plain_name t"
    and d: "os_path_isdir name w"
  shows "mkdir_exist_ok name w = (Inr (), w)"
proof -
  from d have st: "os_stat name w = Inr Dir" by (simp add: os_path_isdir_stat)
  then have nul: "CHR 0x00 \<notin> set name" using os_stat_nul by blast
  from st obtain p where p: "walk (fs w) (start_dir name w) cs = Inr p"
    "lookup (fs w) p = Some Dir" "lookup (fs w) (p @ [t]) = Some Dir"
    unfolding os_stat_last [OF s t nul]
    by (auto split: sum.splits option.splits node.splits)
  have "os_mkdir name w = (Inl (OSError EEXIST name), w)"
    unfolding os_mkdir_last [OF s t nul] using p by simp
  then show ?thesis using d by (simp add: mkdir_exist_ok_def)
qed

lemma mkdir_exist_ok_free:
  assumes s: "split_sep name = cs @ [t]" and t: "plain_name t"
    and nul: "CHR 0x00 \<notin> set name"
    and p: "walk (fs w) (start_dir name w) cs = Inr p" "lookup (fs w) p = Some Dir"
    and free: "\<forall>x. fs w (p @ [t]) \<noteq> Some (File x)"
  shows "\<exists>w1. mkdir_exist_ok name w = (Inr (), w1) \<and> os_path_isdir name w1 \<and> grown w w1"
proof (cases "fs w (p @ [t])")
  case None
  then have "os_mkdir name w = (Inr (), w\<lparr>fs := (fs w)(p @ [t] \<mapsto> Dir)\<rparr>)"
    unfolding os_mkdir_last [OF s t nul] using p by (simp add: lookup_def)
  then have m: "mkdir_exist_ok name w = (Inr (), w\<lparr>fs := (fs w)(p @ [t] \<mapsto> Dir)\<rparr>)"
    by (simp add: mkdir_exist_ok_def)
  from mkdir_exist_ok_isdir [OF s t m] mkdir_exist_ok_grown [OF m] m show ?thesis by blast
next
  case (Some n)
  with free have "n = Dir" by (cases n) auto
  with Some have "os_stat name w = Inr Dir"
    unfolding os_stat_last [OF s t nul] using p by (simp add: lookup_def)
  then have d: "os_path_isdir name w" by (simp add: os_path_isdir_stat)
  from mkdir_exist_ok_again [OF s t d] d grown_refl show ?thesis by blast
qed

lemma os_path_isdir_parent:
  assumes t: "plain_name t" and h: "h \<noteq> []"
    and d: "os_path_isdir (h @ CHR ''/'' # t) w"
  shows "os_path_isdir h w"
proof -
  let ?name = "h @ CHR ''/'' # t"
  from t have ns: "CHR ''/'' \<notin> set t" by (simp add: plain_name_def)
  have s: "split_sep ?name = split_sep h @ [t]" using ns by (rule split_sep_append)
  from d have st: "os_stat ?name w = Inr Dir" by (simp add: os_path_isdir_stat)
  then have nul: "CHR 0x00 \<notin> set ?name" using os_stat_nul by blast
  from st obtain p where p: "walk (fs w) (start_dir ?name w) (split_sep h) = Inr p"
    "lookup (fs w) p = Some Dir"
    unfolding os_stat_last [OF s t nul]
    by (auto split: sum.splits option.splits node.splits)
  have "start_dir ?name w = start_dir h w" using h by (rule start_dir_append)
  with p nul h have "os_stat h w = Inr Dir" by (simp add: os_stat_def)
  then show ?thesis by (simp add: os_path_isdir_stat)
qed

text \<open>\<^verbatim>\<open>os.makedirs\<close> on a path that ends with a slash and a plain name.\<close>

lemma makedirs_child:
  assumes "plain_name t" and "h \<noteq> []" and "last h \<noteq> CHR ''/''"
  shows "makedirs (h @ CHR ''/'' # t) w =
     (if \<not> os_path_exists h w then
        (case makedirs h w of
           (Inl e, w1) \<Rightarrow>
             if is_FileExistsError e then mkdir_exist_ok (h @ CHR ''/'' # t) w1 else (Inl e, w1)
         | (Inr u, w1) \<Rightarrow> mkdir_exist_ok (h @ CHR ''/'' # t) w1)
      else mkdir_exist_ok (h @ CHR ''/'' # t) w)"
proof -
  from assms(1) have t: "CHR ''/'' \<notin> set t" "t \<noteq> []" "t \<noteq> ''.''"
    by (auto simp: plain_name_def)
  have ms: "makedirs_split (h @ CHR ''/'' # t) = (h, t)"
    using t(1,2) assms(2,3) by (rule makedirs_split_child)
  show ?thesis
    by (subst makedirs.simps) (simp add: ms assms(2) t split: prod.splits sum.splits)
qed

lemma makedirs_single:
  assumes "plain_name t"
  shows "makedirs t w = mkdir_exist_ok t w"
proof -
  from assms have t: "CHR ''/'' \<notin> set t" "t \<noteq> []" by (auto simp: plain_name_def)
  then have ms: "makedirs_split t = ([], t)" by (rule makedirs_split_plain)
  show ?thesis by (subst makedirs.simps) (simp add: ms)
qed

lemma makedirs_child_isdir:
  assumes t: "plain_name t" and h: "h \<noteq> []" "last h \<noteq> CHR ''/''"
    and m: "makedirs (h @ CHR ''/'' # t) w = (Inr u, w1)"
  shows "os_path_isdir (h @ CHR ''/'' # t) w1"
proof -
  let ?name = "h @ CHR ''/'' # t"
  from t have ns: "CHR ''/'' \<notin> set t" by (simp add: plain_name_def)
  have s: "split_sep ?name = split_sep h @ [t]" using ns by (rule split_sep_append)
  from m have "\<exists>wx. mkdir_exist_ok ?name wx = (Inr u, w1)"
    unfolding makedirs_child [OF t h]
    by (auto split: if_splits prod.splits sum.splits)
  then show ?thesis using mkdir_exist_ok_isdir [OF s t] by blast
qed

lemma makedirs_child_again:
  assumes t: "plain_name t" and h: "h \<noteq> []" "last h \<noteq> CHR ''/''"
    and d: "os_path_isdir (h @ CHR ''/'' # t) w"
  shows "makedirs (h @ CHR ''/'' # t) w = (Inr (), w)"
proof -
  let ?name = "h @ CHR ''/'' # t"
  from t have ns: "CHR ''/'' \<notin> set t" by (simp add: plain_name_def)
  have s: "split_sep ?name = split_sep h @ [t]" using ns by (rule split_sep_append)
  have "os_path_exists h w"
    using os_path_isdir_parent [OF t h(1) d] by (rule os_path_isdir_exists)
  then show ?thesis
    unfolding makedirs_child [OF t h] using mkdir_exist_ok_again [OF s t d] by simp
qed

section \<open>Paths of plain names\<close>

lemma join_with_snoc:
  "ys \<noteq> [] \<Longrightarrow> join_with sep (ys @ [x]) = join_with sep ys @ sep @ x"
  by (induction sep ys rule: join_with.induct) auto

lemma join_split: "join_with ''/'' (split_sep s) = s"
proof (induction s)
  case Nil
  then show ?case by simp
next
  case (Cons c cs)
  obtain x xs where x: "split_sep cs = x # xs"
    using split_sep_nonempty [of cs] by (cases "split_sep cs") auto
  with Cons show ?case by (cases xs) auto
qed

lemma plain_path_shape:
  assumes "cs \<noteq> []" and "list_all plain_name cs"
  shows "join_with ''/'' cs \<noteq> []" and "hd (join_with ''/'' cs) \<noteq> CHR ''/''"
    and "last (join_with ''/'' cs) \<noteq> CHR ''/''" and "CHR 0x00 \<notin> set (join_with ''/'' cs)"
    and "split_sep (join_with ''/'' cs) = cs"
proof -
  have "join_with ''/'' cs \<noteq> [] \<and> hd (join_with ''/'' cs) \<noteq> CHR ''/''
      \<and> last (join_with ''/'' cs) \<noteq> CHR ''/'' \<and> CHR 0x00 \<notin> set (join_with ''/'' cs)
      \<and> split_sep (join_with ''/'' cs) = cs"
    using assms
  proof (induction cs rule: rev_nonempty_induct)
    case (single x)
    then have "x \<noteq> []" "CHR ''/'' \<notin> set x" "CHR 0x00 \<notin> set x" by (auto simp: plain_name_def)
    then show ?case
      by (cases x) (auto simp: split_sep_plain dest: last_in_set)
  next
    case (snoc x xs)
    from snoc.prems have xs: "list_all plain_name xs" and px: "plain_name x" by simp_all
    from px have x: "x \<noteq> []" "CHR ''/'' \<notin> set x" "CHR 0x00 \<notin> set x"
      by (auto simp: plain_name_def)
    note ih = snoc.IH [OF xs]
    have j: "join_with ''/'' (xs @ [x]) = join_with ''/'' xs @ CHR ''/'' # x"
      using snoc.hyps by (simp add: join_with_snoc)
    have "last (join_with ''/'' xs @ CHR ''/'' # x) = last x" using x(1) by simp
    moreover have "last x \<noteq> CHR ''/''" using x(1,2) last_in_set by metis
    ultimately show ?case
      unfolding j using ih x by (simp add: split_sep_append)
  qed
  then show "join_with ''/'' cs \<noteq> []" and "hd (join_with ''/'' cs) \<noteq> CHR ''/''"
    and "last (join_with ''/'' cs) \<noteq> CHR ''/''" and "CHR 0x00 \<notin> set (join_with ''/'' cs)"
    and "split_sep (join_with ''/'' cs) = cs" by simp_all
qed

lemma free_way_append:
  "free_way tree cur (ys @ zs) \<longleftrightarrow> free_way tree cur ys \<and> free_way tree (cur @ ys) zs"
  by (induction ys arbitrary: cur) auto

lemma free_way_last:
  "free_way tree cur (ys @ [x]) \<Longrightarrow> tree (cur @ ys @ [x]) \<noteq> Some (File c)"
  by (auto simp: free_way_append split: option.splits node.splits)

lemma free_way_grown:
  "free_way (fs w) cur cs \<Longrightarrow> grown w w1 \<Longrightarrow> free_way (fs w1) cur cs"
proof (induction cs arbitrary: cur)
  case Nil
  then show ?case by simp
next
  case (Cons c cs)
  from Cons.prems(2) have "fs w1 (cur @ [c]) = fs w (cur @ [c]) \<or> fs w1 (cur @ [c]) = Some Dir"
    by (auto simp: grown_def)
  with Cons show ?case by (auto split: option.splits node.splits)
qed

text \<open>
  Along a relative path of plain names, from a working directory that exists, with no
  regular file on the way, \<^verbatim>\<open>os.makedirs\<close> returns and the directory is there.
\<close>

lemma makedirs_plain_path:
  assumes "cs \<noteq> []" and "list_all plain_name cs"
    and "lookup (fs w) (cwd w) = Some Dir" and "free_way (fs w) (cwd w) cs"
  shows "\<exists>w1. makedirs (join_with ''/'' cs) w = (Inr (), w1)
           \<and> os_path_isdir (join_with ''/'' cs) w1 \<and> grown w w1"
  using assms
proof (induction cs arbitrary: w rule: rev_nonempty_induct)
  case (single x)
  then have x: "plain_name x" by simp
  then have x': "x \<noteq> []" "CHR ''/'' \<notin> set x" "CHR 0x00 \<notin> set x" "hd x \<noteq> CHR ''/''"
    by (cases x; auto simp: plain_name_def)+
  have s: "split_sep x = [] @ [x]" using x'(2) by (simp add: split_sep_plain)
  have sd: "start_dir x w = cwd w" using x' by (simp add: start_dir_def)
  have p: "walk (fs w) (start_dir x w) [] = Inr (cwd w)" by (simp add: sd)
  have free: "\<forall>c. fs w (cwd w @ [x]) \<noteq> Some (File c)"
    using single.prems(3) by (auto split: option.splits node.splits)
  from mkdir_exist_ok_free [OF s x x'(3) p single.prems(2) free]
  show ?case by (simp add: makedirs_single [OF x])
next
  case (snoc x ys)
  let ?h = "join_with ''/'' ys"
  let ?name = "?h @ CHR ''/'' # x"
  from snoc.prems have x: "plain_name x" and ys: "list_all plain_name ys" by simp_all
  from x have x': "CHR ''/'' \<notin> set x" "CHR 0x00 \<notin> set x" by (auto simp: plain_name_def)
  note sh = plain_path_shape [OF snoc.hyps(1) ys]
  have j: "join_with ''/'' (ys @ [x]) = ?name" using snoc.hyps(1) by (simp add: join_with_snoc)
  have s: "split_sep ?name = ys @ [x]" using x'(1) sh(5) by (simp add: split_sep_append)
  have nul: "CHR 0x00 \<notin> set ?name" using x'(2) sh(4) by simp
  have sd: "start_dir ?name v = cwd v" "start_dir ?h v = cwd v" for v
    using sh(1,2) by (simp_all add: start_dir_def)
  from snoc.prems(3) have fw: "free_way (fs w) (cwd w) ys"
    and fl: "\<forall>c. fs w (cwd w @ ys @ [x]) \<noteq> Some (File c)"
    and fy: "\<forall>c. fs w (cwd w @ ys) \<noteq> Some (File c)"
    using free_way_last [of "fs w" "cwd w" ys x]
      free_way_last [of "fs w" "cwd w" "butlast ys" "last ys"] snoc.hyps(1)
    by (auto simp: free_way_append)
  text \<open>Whether the head exists already or is made now, it is a directory in a world
    that has grown from the first.\<close>
  have "\<exists>wx. (if \<not> os_path_exists ?h w then makedirs ?h w = (Inr (), wx) else wx = w)
      \<and> os_path_isdir ?h wx \<and> grown w wx"
  proof (cases "os_path_exists ?h w")
    case False
    from snoc.IH [OF ys snoc.prems(2) fw] False show ?thesis by auto
  next
    case True
    then obtain n where n: "os_stat ?h w = Inr n" by (auto simp: os_path_exists_stat)
    then obtain p where p: "walk (fs w) (cwd w) ys = Inr p" "lookup (fs w) p = Some n"
      using sh(1,4,5) sd(2) [of w]
      by (auto simp: os_stat_def split: sum.splits option.splits)
    from walk_plain [OF ys p(1)] have "p = cwd w @ ys" .
    with p(2) fy snoc.hyps(1) have "n = Dir" by (cases n) (auto simp: lookup_def)
    with n True show ?thesis by (auto simp: os_path_isdir_stat grown_refl)
  qed
  then obtain wx where wx: "if \<not> os_path_exists ?h w then makedirs ?h w = (Inr (), wx) else wx = w"
    "os_path_isdir ?h wx" "grown w wx" by blast
  have md: "makedirs ?name w = mkdir_exist_ok ?name wx"
    unfolding makedirs_child [OF x sh(1) sh(3)] using wx(1) by (auto split: if_splits)
  from wx(2) have "os_stat ?h wx = Inr Dir" by (simp add: os_path_isdir_stat)
  then obtain p where p: "walk (fs wx) (cwd wx) ys = Inr p" "lookup (fs wx) p = Some Dir"
    using sh(1,4,5) sd(2) [of wx]
    by (auto simp: os_stat_def split: sum.splits option.splits)
  from walk_plain [OF ys p(1)] have pe: "p = cwd wx @ ys" .
  have cw: "cwd wx = cwd w" using wx(3) by (simp add: grown_def)
  have "fs wx (cwd w @ ys @ [x]) = fs w (cwd w @ ys @ [x]) \<or> fs wx (cwd w @ ys @ [x]) = Some Dir"
    using wx(3) by (auto simp: grown_def)
  with fl have free: "\<forall>c. fs wx (p @ [x]) \<noteq> Some (File c)" using pe cw by auto
  have pw: "walk (fs wx) (start_dir ?name wx) ys = Inr p" using p(1) by (simp add: sd)
  from mkdir_exist_ok_free [OF s x nul pw p(2) free]
  obtain w1 where "mkdir_exist_ok ?name wx = (Inr (), w1)" "os_path_isdir ?name w1" "grown wx w1"
    by blast
  with md wx(3) show ?case unfolding j using grown_trans by metis
qed

section \<open>The Path Builder's pattern\<close>

lemma os_makedirs_Inr:
  "os_makedirs name w = (Inr u, w1) \<Longrightarrow> makedirs name (emit (MakeDirs name) w) = (Inr (), w1)"
  by (auto simp: os_makedirs_def split: prod.splits sum.splits)

lemma os_makedirs_Inl: "os_makedirs name w = (Inl e, w1) \<Longrightarrow> is_Exception e"
proof -
  assume a: "os_makedirs name w = (Inl e, w1)"
  have "is_Exception (raised x)" for x by (cases x) simp_all
  with a show ?thesis by (auto simp: os_makedirs_def split: prod.splits sum.splits)
qed

lemma os_makedirs_world:
  assumes "os_makedirs name w = (r, w1)"
  shows "grown (emit (MakeDirs name) w) w1"
proof -
  obtain r0 where "makedirs name (emit (MakeDirs name) w) = (r0, w1)"
    using assms by (auto simp: os_makedirs_def split: prod.splits sum.splits)
  then show ?thesis by (rule makedirs_grown)
qed

lemma os_makedirs_frame: "os_makedirs name w = (r, w1) \<Longrightarrow> frame w w1"
  using os_makedirs_world grown_frame frame_emit frame_trans by blast

lemma os_makedirs_trace: "os_makedirs name w = (r, w1) \<Longrightarrow> trace w1 = trace w @ [MakeDirs name]"
  using os_makedirs_world [of name w r w1] by (simp add: grown_def emit_simps)

text \<open>What the Path Builder computes before it touches the filesystem.\<close>

lemma create_datetime_directory_str:
  "create_datetime_directory (PyStr base) w =
     (case os_makedirs (with_sep base @ format_02d (year (clock w) mod 100) @ CHR ''/''
              # format_02d (month (clock w)) @ CHR ''/''
              # format_02d (day (clock w)) @ format_02d (hour (clock w))) w of
        (Inl e, w1) \<Rightarrow> (Inl e, w1)
      | (Inr u, w1) \<Rightarrow>
          (Inr (with_sep base @ format_02d (year (clock w) mod 100) @ CHR ''/''
                  # format_02d (month (clock w)) @ CHR ''/''
                  # format_02d (day (clock w)) @ format_02d (hour (clock w)),
                format_02d (minute (clock w)) @ format_02d (second (clock w))), w1))"
  by (simp add: create_datetime_directory_def Let_def join_dir_path and_then_def
      evaluate_simp return_simp split: prod.splits sum.splits)

lemma create_datetime_directory_other:
  "\<forall>s. base_dir \<noteq> PyStr s \<Longrightarrow>
   create_datetime_directory base_dir w
     = (Inl (Exception ''TypeError''
          (''expected str, bytes or os.PathLike object, not '' @ type_name base_dir)), w)"
  by (cases base_dir)
    (simp_all add: create_datetime_directory_def Let_def os_path_join_def and_then_def
      evaluate_simp)

lemma create_datetime_directory_Inr:
  assumes "create_datetime_directory base_dir w = (Inr (dir_path, stem), w1)"
  shows "\<exists>base. base_dir = PyStr base
     \<and> dir_path = (with_sep base @ format_02d (year (clock w) mod 100) @ CHR ''/''
              # format_02d (month (clock w))) @ CHR ''/''
              # (format_02d (day (clock w)) @ format_02d (hour (clock w)))"
    and "os_makedirs dir_path w = (Inr (), w1)"
    and "stem = format_02d (minute (clock w)) @ format_02d (second (clock w))"
proof -
  from assms obtain base where b: "base_dir = PyStr base"
    using create_datetime_directory_other [of base_dir w] by (cases "\<exists>s. base_dir = PyStr s") auto
  let ?d = "with_sep base @ format_02d (year (clock w) mod 100) @ CHR ''/''
              # format_02d (month (clock w)) @ CHR ''/''
              # format_02d (day (clock w)) @ format_02d (hour (clock w))"
  obtain r w' where m: "os_makedirs ?d w = (r, w')" by (cases "os_makedirs ?d w")
  from assms b have "create_datetime_directory (PyStr base) w = (Inr (dir_path, stem), w1)"
    by simp
  with m have "r = Inr () \<and> dir_path = ?d \<and> w' = w1
      \<and> stem = format_02d (minute (clock w)) @ format_02d (second (clock w))"
    unfolding create_datetime_directory_str by (cases r) simp_all
  with m b show "\<exists>base. base_dir = PyStr base
     \<and> dir_path = (with_sep base @ format_02d (year (clock w) mod 100) @ CHR ''/''
              # format_02d (month (clock w))) @ CHR ''/''
              # (format_02d (day (clock w)) @ format_02d (hour (clock w)))"
    and "os_makedirs dir_path w = (Inr (), w1)"
    and "stem = format_02d (minute (clock w)) @ format_02d (second (clock w))"
    by simp_all
qed

lemma create_datetime_directory_Inl:
  assumes "create_datetime_directory base_dir w = (Inl e, w1)"
  shows "is_Exception e" and "frame w w1"
    and "trace w1 = trace w \<or> (\<exists>d. trace w1 = trace w @ [MakeDirs d])"
proof -
  have "is_Exception e \<and> frame w w1
      \<and> (trace w1 = trace w \<or> (\<exists>d. trace w1 = trace w @ [MakeDirs d]))"
  proof (cases "\<exists>s. base_dir = PyStr s")
    case False
    with assms show ?thesis
      using create_datetime_directory_other [of base_dir w] by (auto simp: frame_refl)
  next
    case True
    then obtain base where b: "base_dir = PyStr base" by blast
    from assms obtain d where "os_makedirs d w = (Inl e, w1)"
      unfolding b create_datetime_directory_str by (auto split: prod.splits sum.splits)
    then show ?thesis
      using os_makedirs_Inl os_makedirs_frame os_makedirs_trace by blast
  qed
  then show "is_Exception e" and "frame w w1"
    and "trace w1 = trace w \<or> (\<exists>d. trace w1 = trace w @ [MakeDirs d])" by simp_all
qed

lemma create_datetime_directory_frame:
  "create_datetime_directory base_dir w = (r, w1) \<Longrightarrow> frame w w1"
proof (cases r)
  case (Inl e)
  assume "create_datetime_directory base_dir w = (r, w1)"
  with Inl show ?thesis using create_datetime_directory_Inl(2) by blast
next
  case (Inr x)
  assume "create_datetime_directory base_dir w = (r, w1)"
  with Inr have "create_datetime_directory base_dir w = (Inr (fst x, snd x), w1)" by simp
  from create_datetime_directory_Inr(2) [OF this] show ?thesis by (rule os_makedirs_frame)
qed

lemma valid_fields:
  assumes "valid_datetime t"
  shows "format_02d (year t mod 100) = two_digit_field (year t mod 100)"
    and "format_02d (month t) = two_digit_field (month t)"
    and "format_02d (day t) = two_digit_field (day t)"
    and "format_02d (hour t) = two_digit_field (hour t)"
    and "format_02d (minute t) = two_digit_field (minute t)"
    and "format_02d (second t) = two_digit_field (second t)"
proof -
  show "format_02d (year t mod 100) = two_digit_field (year t mod 100)"
    by (rule format_02d_field) simp_all
  show "format_02d (month t) = two_digit_field (month t)"
    "format_02d (day t) = two_digit_field (day t)"
    "format_02d (hour t) = two_digit_field (hour t)"
    "format_02d (minute t) = two_digit_field (minute t)"
    "format_02d (second t) = two_digit_field (second t)"
    using assms by (simp_all add: valid_datetime_def format_02d_field)
qed

lemma create_datetime_directory_valid:
  assumes "valid_datetime (clock w)"
  shows "create_datetime_directory (PyStr base) w =
     (case os_makedirs (dated_dir base (clock w)) w of
        (Inl e, w1) \<Rightarrow> (Inl e, w1)
      | (Inr u, w1) \<Rightarrow> (Inr (dated_dir base (clock w), dated_stem (clock w)), w1))"
proof -
  have d: "dated_dir base (clock w) = with_sep base @ two_digit_field (year (clock w) mod 100)
      @ CHR ''/'' # two_digit_field (month (clock w)) @ CHR ''/''
      # two_digit_field (day (clock w)) @ two_digit_field (hour (clock w))"
    by (simp add: dated_dir_def)
  show ?thesis
    unfolding create_datetime_directory_str valid_fields [OF assms] d dated_stem_def ..
qed

lemma create_datetime_directory_again:
  assumes "os_makedirs d w = (Inr (), w1)"
    and "d = with_sep base @ format_02d (year (clock w) mod 100) @ CHR ''/''
              # format_02d (month (clock w)) @ CHR ''/''
              # format_02d (day (clock w)) @ format_02d (hour (clock w))"
    and "s = format_02d (minute (clock w)) @ format_02d (second (clock w))"
  shows "create_datetime_directory (PyStr base) w = (Inr (d, s), w1)"
  using assms unfolding create_datetime_directory_str by simp

lemma two_digit_field_plain:
  "plain_name (two_digit_field a)" "plain_name (two_digit_field a @ two_digit_field b)"
proof -
  have dd: "x \<noteq> CHR ''/'' \<and> x \<noteq> CHR ''.'' \<and> x \<noteq> CHR 0x00" if "\<exists>n. x = digit n" for x
  proof -
    from that obtain n where "x = digit n" by blast
    then show ?thesis using is_digit_plain [OF digit_is_digit, of n] by simp
  qed
  have d: "plain_name [digit i, digit j]" "plain_name [digit i, digit j, digit k, digit l]"
    for i j k l
  proof -
    show "plain_name [digit i, digit j]"
    proof (rule plain_name_chars)
      fix x assume "x \<in> set [digit i, digit j]"
      then have "\<exists>n. x = digit n" by auto
      then show "x \<noteq> CHR ''/'' \<and> x \<noteq> CHR ''.'' \<and> x \<noteq> CHR 0x00" by (rule dd)
    qed simp
    show "plain_name [digit i, digit j, digit k, digit l]"
    proof (rule plain_name_chars)
      fix x assume "x \<in> set [digit i, digit j, digit k, digit l]"
      then have "\<exists>n. x = digit n" by auto
      then show "x \<noteq> CHR ''/'' \<and> x \<noteq> CHR ''.'' \<and> x \<noteq> CHR 0x00" by (rule dd)
    qed simp
  qed
  then show "plain_name (two_digit_field a)"
    "plain_name (two_digit_field a @ two_digit_field b)"
    by (simp_all add: two_digit_field_def)
qed

lemma dated_dir_pieces:
  assumes "list_all plain_name (split_sep base)"
  shows "dated_dir base t = join_with ''/'' (split_sep base
      @ [two_digit_field (year t mod 100), two_digit_field (month t),
         two_digit_field (day t) @ two_digit_field (hour t)])"
    and "list_all plain_name (split_sep base
      @ [two_digit_field (year t mod 100), two_digit_field (month t),
         two_digit_field (day t) @ two_digit_field (hour t)])"
proof -
  let ?bs = "split_sep base"
  have ne: "?bs \<noteq> []" by (rule split_sep_nonempty)
  note sh = plain_path_shape [OF ne assms, unfolded join_split]
  have ws: "with_sep base = base @ ''/''" using sh(1,3) by (simp add: with_sep_def)
  have "join_with ''/'' (?bs @ [a, b, c]) = base @ ''/'' @ a @ ''/'' @ b @ ''/'' @ c" for a b c
  proof -
    have "join_with ''/'' (?bs @ [a]) = base @ ''/'' @ a"
      using ne by (simp add: join_with_snoc join_split)
    then have "join_with ''/'' ((?bs @ [a]) @ [b]) = base @ ''/'' @ a @ ''/'' @ b"
      by (subst join_with_snoc) simp_all
    then have "join_with ''/'' (((?bs @ [a]) @ [b]) @ [c]) = base @ ''/'' @ a @ ''/'' @ b @ ''/'' @ c"
      by (subst join_with_snoc) simp_all
    then show ?thesis by simp
  qed
  then show "dated_dir base t = join_with ''/'' (?bs
      @ [two_digit_field (year t mod 100), two_digit_field (month t),
         two_digit_field (day t) @ two_digit_field (hour t)])"
    by (simp add: dated_dir_def ws)
  show "list_all plain_name (?bs
      @ [two_digit_field (year t mod 100), two_digit_field (month t),
         two_digit_field (day t) @ two_digit_field (hour t)])"
    using assms two_digit_field_plain by simp
qed

lemma path_builder_returns:
  assumes valid: "valid_datetime (clock w)"
    and base: "list_all plain_name (split_sep base)"
    and cw: "lookup (fs w) (cwd w) = Some Dir"
    and free: "free_way (fs w) (cwd w) (split_sep (dated_dir base (clock w)))"
  shows "\<exists>w1. create_datetime_directory (PyStr base) w
            = (Inr (dated_dir base (clock w), dated_stem (clock w)), w1)
          \<and> os_path_isdir (dated_dir base (clock w)) w1"
proof -
  let ?cs = "split_sep base
      @ [two_digit_field (year (clock w) mod 100), two_digit_field (month (clock w)),
         two_digit_field (day (clock w)) @ two_digit_field (hour (clock w))]"
  let ?d = "dated_dir base (clock w)"
  let ?w0 = "emit (MakeDirs ?d) w"
  note dp = dated_dir_pieces [OF base, of "clock w"]
  have ne: "?cs \<noteq> []" by simp
  have sp: "split_sep ?d = ?cs" unfolding dp(1) using plain_path_shape(5) [OF ne dp(2)] .
  have "lookup (fs ?w0) (cwd ?w0) = Some Dir" "free_way (fs ?w0) (cwd ?w0) ?cs"
    using cw free sp by (simp_all add: emit_simps)
  from makedirs_plain_path [OF ne dp(2) this]
  obtain w1 where "makedirs ?d ?w0 = (Inr (), w1)" "os_path_isdir ?d w1"
    unfolding dp(1) [symmetric] by blast
  then show ?thesis
    unfolding create_datetime_directory_valid [OF valid] by (simp add: os_makedirs_def)
qed

text \<open>
  Claim C1. For every valid timestamp and every base directory the Path Builder either
  raises what \<^verbatim>\<open>os.makedirs\<close> raises or returns the directory of the pattern -- the base,
  a slash (as \<^verbatim>\<open>os.path.join\<close> puts it), the two-digit year, a slash, the two-digit
  month, a slash, the two-digit day and hour -- and the stem of the two-digit minute and
  second, four digit characters. It does return, and the directory is there afterwards,
  whenever the base is a relative path of plain names, the working directory exists and
  no regular file stands on the way. With base \<^verbatim>\<open>output\<close> at 2024-03-07 14:05:09
  directory and stem are \<^verbatim>\<open>output/24/03/0714\<close> and \<^verbatim>\<open>0509\<close>.
\<close>

theorem path_builder_pattern:
  assumes valid: "valid_datetime (clock w)"
  shows "(\<forall>dir_path stem w1.
            create_datetime_directory (PyStr base) w = (Inr (dir_path, stem), w1) \<longrightarrow>
              dir_path = dated_dir base (clock w) \<and> stem = dated_stem (clock w))
       \<and> (\<forall>e w1. create_datetime_directory (PyStr base) w = (Inl e, w1) \<longrightarrow>
              os_makedirs (dated_dir base (clock w)) w = (Inl e, w1))
       \<and> (list_all plain_name (split_sep base) \<and> lookup (fs w) (cwd w) = Some Dir
            \<and> free_way (fs w) (cwd w) (split_sep (dated_dir base (clock w))) \<longrightarrow>
              (\<exists>w1. create_datetime_directory (PyStr base) w
                       = (Inr (dated_dir base (clock w), dated_stem (clock w)), w1)
                    \<and> os_path_isdir (dated_dir base (clock w)) w1))
       \<and> length (dated_stem (clock w)) = 4 \<and> list_all is_digit (dated_stem (clock w))
       \<and> dated_dir ''output'' t2024 = ''output/24/03/0714'' \<and> dated_stem t2024 = ''0509''"
proof -
  note c = create_datetime_directory_valid [OF valid, of base]
  have 1: "dir_path = dated_dir base (clock w) \<and> stem = dated_stem (clock w)"
    if "create_datetime_directory (PyStr base) w = (Inr (dir_path, stem), w1)"
    for dir_path stem w1
    using that unfolding c by (auto split: prod.splits sum.splits)
  have 2: "os_makedirs (dated_dir base (clock w)) w = (Inl e, w1)"
    if "create_datetime_directory (PyStr base) w = (Inl e, w1)" for e w1
    using that unfolding c by (auto split: prod.splits sum.splits)
  have 3: "\<exists>w1. create_datetime_directory (PyStr base) w
                       = (Inr (dated_dir base (clock w), dated_stem (clock w)), w1)
                    \<and> os_path_isdir (dated_dir base (clock w)) w1"
    if "list_all plain_name (split_sep base)" "lookup (fs w) (cwd w) = Some Dir"
      "free_way (fs w) (cwd w) (split_sep (dated_dir base (clock w)))"
    using path_builder_returns [OF valid that] .
  have 4: "length (dated_stem (clock w)) = 4 \<and> list_all is_digit (dated_stem (clock w))"
    using two_digit_field_digits by (simp add: dated_stem_def)
  have 5: "dated_dir ''output'' t2024 = ''output/24/03/0714'' \<and> dated_stem t2024 = ''0509''"
    by (simp add: dated_dir_def dated_stem_def with_sep_def two_digit_field_def digit_def
        t2024_def)
  from 1 2 3 4 5 show ?thesis by blast
qed

theorem path_builder_pattern_witness:
  "valid_datetime (clock (empty_world t2024))
   \<and> list_all plain_name (split_sep ''output'')
   \<and> lookup (fs (empty_world t2024)) (cwd (empty_world t2024)) = Some Dir
   \<and> free_way (fs (empty_world t2024)) (cwd (empty_world t2024)) (split_sep ''output/24/03/0714'')
   \<and> fst (create_datetime_directory (PyStr ''output'') (empty_world t2024))
       = Inr (''output/24/03/0714'', ''0509'')
   \<and> os_path_isdir ''output/24/03/0714''
       (snd (create_datetime_directory (PyStr ''output'') (empty_world t2024)))"
proof -
  let ?w = "empty_world t2024"
  have v: "valid_datetime (clock ?w)"
    by (simp add: valid_datetime_def empty_world_def t2024_def)
  have c: "clock ?w = t2024" by (simp add: empty_world_def)
  have b: "list_all plain_name (split_sep ''output'')" by (simp add: plain_name_def)
  have l: "lookup (fs ?w) (cwd ?w) = Some Dir" by (simp add: empty_world_def lookup_def)
  have f: "free_way (fs ?w) (cwd ?w) (split_sep ''output/24/03/0714'')"
    by (simp add: empty_world_def)
  note p = path_builder_pattern [OF v, of "''output''", unfolded c]
  from p have d: "dated_dir ''output'' t2024 = ''output/24/03/0714''"
    and s: "dated_stem t2024 = ''0509''" by simp_all
  from p b l f obtain w1 where
    "create_datetime_directory (PyStr ''output'') ?w = (Inr (''output/24/03/0714'', ''0509''), w1)"
    "os_path_isdir ''output/24/03/0714'' w1"
    unfolding d s by blast
  then show ?thesis using v b l f by simp
qed

section \<open>Idempotence of the directory creation\<close>

text \<open>
  Claim C6. Directory creation by the Path Builder is idempotent. When a call at one
  timestamp returns a directory and a stem, the directory exists afterwards, and a second
  call at any timestamp of the same second, made when the directory already exists,
  raises nothing, returns the same directory and the same stem, and leaves the
  filesystem as it was.
\<close>

theorem path_builder_idempotent:
  assumes same: "same_second t1 t2"
    and first: "create_datetime_directory base_dir (w\<lparr>clock := t1\<rparr>) = (Inr (dir_path, stem), w1)"
  shows "os_path_isdir dir_path w1
       \<and> (\<exists>w2. create_datetime_directory base_dir (w1\<lparr>clock := t2\<rparr>) = (Inr (dir_path, stem), w2)
                \<and> fs w2 = fs w1)"
proof -
  note c = create_datetime_directory_Inr [OF first]
  from c(1) obtain base where b: "base_dir = PyStr base"
    and d: "dir_path = (with_sep base @ format_02d (year t1 mod 100) @ CHR ''/''
              # format_02d (month t1)) @ CHR ''/'' # (format_02d (day t1) @ format_02d (hour t1))"
    by auto
  let ?h = "with_sep base @ format_02d (year t1 mod 100) @ CHR ''/'' # format_02d (month t1)"
  let ?t = "format_02d (day t1) @ format_02d (hour t1)"
  have t: "plain_name ?t" by (rule format_02d_plain)
  have h: "?h \<noteq> []" "last ?h \<noteq> CHR ''/''"
    using format_02d_nonempty [of "month t1"] last_format_02d [of "month t1"] by simp_all
  have ex: "os_path_isdir dir_path w1"
    using os_makedirs_Inr [OF c(2)] unfolding d by (rule makedirs_child_isdir [OF t h])
  let ?w2 = "emit (MakeDirs dir_path) (w1\<lparr>clock := t2\<rparr>)"
  from ex have "os_path_isdir dir_path ?w2"
    by (rule os_path_isdir_mono) (simp_all add: emit_simps)
  then have "makedirs dir_path ?w2 = (Inr (), ?w2)"
    unfolding d by (rule makedirs_child_again [OF t h])
  then have m: "os_makedirs dir_path (w1\<lparr>clock := t2\<rparr>) = (Inr (), ?w2)"
    by (simp add: os_makedirs_def)
  have "create_datetime_directory base_dir (w1\<lparr>clock := t2\<rparr>) = (Inr (dir_path, stem), ?w2)"
    unfolding b using m
  proof (rule create_datetime_directory_again)
    show "dir_path = with_sep base @ format_02d (year (clock (w1\<lparr>clock := t2\<rparr>)) mod 100)
        @ CHR ''/'' # format_02d (month (clock (w1\<lparr>clock := t2\<rparr>))) @ CHR ''/''
        # format_02d (day (clock (w1\<lparr>clock := t2\<rparr>)))
        @ format_02d (hour (clock (w1\<lparr>clock := t2\<rparr>)))"
      using d same by (simp add: same_second_def)
    show "stem = format_02d (minute (clock (w1\<lparr>clock := t2\<rparr>)))
        @ format_02d (second (clock (w1\<lparr>clock := t2\<rparr>)))"
      using c(3) same by (simp add: same_second_def)
  qed
  moreover have "fs ?w2 = fs w1" by (simp add: emit_simps)
  ultimately show ?thesis using ex by blast
qed

theorem path_builder_idempotent_witness:
  "same_second t2024 (t2024\<lparr>microsecond := 500000\<rparr>)
   \<and> fst (create_datetime_directory (PyStr ''output'') ((empty_world t2024)\<lparr>clock := t2024\<rparr>))
       = Inr (''output/24/03/0714'', ''0509'')
   \<and> fst (create_datetime_directory (PyStr ''output'')
        ((snd (create_datetime_directory (PyStr ''output'')
            ((empty_world t2024)\<lparr>clock := t2024\<rparr>)))\<lparr>clock := t2024\<lparr>microsecond := 500000\<rparr>\<rparr>))
       = Inr (''output/24/03/0714'', ''0509'')"
proof -
  let ?w = "(empty_world t2024)\<lparr>clock := t2024\<rparr>"
  have s: "same_second t2024 (t2024\<lparr>microsecond := 500000\<rparr>)"
    by (simp add: same_second_def)
  have r: "fst (create_datetime_directory (PyStr ''output'') ?w)
             = Inr (''output/24/03/0714'', ''0509'')"
    by code_simp
  then have first: "create_datetime_directory (PyStr ''output'') ?w
      = (Inr (''output/24/03/0714'', ''0509''),
         snd (create_datetime_directory (PyStr ''output'') ?w))"
    by (metis prod.collapse)
  from path_builder_idempotent [OF s first] obtain w2 where
    "create_datetime_directory (PyStr ''output'')
       ((snd (create_datetime_directory (PyStr ''output'') ?w))\<lparr>clock := t2024\<lparr>microsecond := 500000\<rparr>\<rparr>)
     = (Inr (''output/24/03/0714'', ''0509''), w2)"
    by blast
  then show ?thesis using s r by simp
qed

section \<open>Effects of the single steps\<close>



lemma console_works_emit: "console_works (emit ev w) = console_works w"
  by (simp add: console_works_def emit_simps)

lemma print_works: "console_works w \<Longrightarrow> print s w = (Inr (), emit (Print s) w)"
  by (simp add: print_def console_works_def)

lemma print_Inr: "print s w = (Inr u, w1) \<Longrightarrow> w1 = emit (Print s) w"
  by (auto simp: print_def split: option.splits)

lemma print_Inl: "print s w = (Inl e, w1) \<Longrightarrow> is_Exception e \<and> w1 = w"
  by (auto simp: print_def split: option.splits)

lemma print_frame: "print s w = (r, w1) \<Longrightarrow> frame w w1"
  using print_Inr print_Inl frame_emit frame_refl by (cases r) blast+

lemma load_model_simp: "load_model whisper mn w = (whisper mn, emit (LoadModel mn) w)"
  by (simp add: load_model_def)

lemma model_transcribe_simp: "model_transcribe m a opts w = (m a opts, emit (Transcribe a opts) w)"
  by (simp add: model_transcribe_def)

lemma loading_world_simps:
  "fs (loading_world mn w) = fs w" "cwd (loading_world mn w) = cwd w"
  "clock (loading_world mn w) = clock w"
  "trace (loading_world mn w) = trace w @ [Print (''Loading model: '' @ py_str mn), LoadModel mn]"
  "console_fault (loading_world mn w) = console_fault w"
  "write_fault (loading_world mn w) = write_fault w"
  "console_works (loading_world mn w) = console_works w"
  by (simp_all add: loading_world_def emit_simps console_works_emit)


lemma raised_Exception: "is_Exception (raised x)"
  by (cases x) simp_all




lemma open_w_Inl:
  assumes "open_w name w = (Inl e, w1)"
  shows "is_Exception e" and "w1 = emit (OpenFile name) w"
proof -
  have "is_Exception e \<and> w1 = emit (OpenFile name) w"
    using assms raised_Exception
    by (auto simp: open_w_def Let_def split: sum.splits)
  then show "is_Exception e" and "w1 = emit (OpenFile name) w" by simp_all
qed

lemma open_target_Inr:
  assumes "open_target name w = Inr f"
  shows "CHR 0x00 \<notin> set name" and "name \<noteq> []"
    and "strip_empty (split_sep name) = split_sep name"
    and "\<exists>parent. walk (fs w) (start_dir name w) (butlast (split_sep name)) = Inr parent
           \<and> lookup (fs w) parent = Some Dir \<and> f = parent @ [last (split_sep name)]"
    and "last (split_sep name) \<noteq> ''.''" and "last (split_sep name) \<noteq> ''..''"
    and "fs w f \<noteq> Some Dir"
proof -
  let ?cs = "strip_empty (split_sep name)"
  from assms have 1: "CHR 0x00 \<notin> set name" "name \<noteq> []" "?cs \<noteq> []"
    by (auto simp: open_target_def Let_def split: if_splits)
  with assms obtain parent where p: "walk (fs w) (start_dir name w) (butlast ?cs) = Inr parent"
    by (cases "walk (fs w) (start_dir name w) (butlast ?cs)")
      (auto simp: open_target_def Let_def)
  with assms 1 have d: "lookup (fs w) parent = Some Dir"
    by (auto simp: open_target_def Let_def split: option.splits node.splits)
  with assms 1 p have r: "?cs = split_sep name" "last ?cs \<noteq> ''.''" "last ?cs \<noteq> ''..''"
    "lookup (fs w) (parent @ [last ?cs]) \<noteq> Some Dir" "f = parent @ [last ?cs]"
    by (auto simp: open_target_def Let_def split: if_splits)
  show "CHR 0x00 \<notin> set name" "name \<noteq> []" using 1 by simp_all
  show "?cs = split_sep name" using r by simp
  show "\<exists>parent. walk (fs w) (start_dir name w) (butlast (split_sep name)) = Inr parent
           \<and> lookup (fs w) parent = Some Dir \<and> f = parent @ [last (split_sep name)]"
    using p d r by auto
  show "last (split_sep name) \<noteq> ''.''" "last (split_sep name) \<noteq> ''..''" using r by simp_all
  show "fs w f \<noteq> Some Dir" using r by (simp add: lookup_def)
qed

lemma open_w_Inr:
  assumes "open_w name w = (Inr f, w1)"
  shows "w1 = (emit (OpenFile name) w)\<lparr>fs := (fs w)(f \<mapsto> File [])\<rparr>"
    and "open_target name (emit (OpenFile name) w) = Inr f"
  using assms
  by (auto simp: open_w_def Let_def emit_simps split: sum.splits)

lemma open_w_frame: "open_w name w = (r, w1) \<Longrightarrow> frame w w1"
proof (cases r)
  case (Inl e)
  assume "open_w name w = (r, w1)"
  with Inl show ?thesis using open_w_Inl(2) frame_emit by blast
next
  case (Inr f)
  assume "open_w name w = (r, w1)"
  with Inr have o: "open_w name w = (Inr f, w1)" by simp
  from open_target_Inr(7) [OF open_w_Inr(2) [OF o]] open_w_Inr(1) [OF o] show ?thesis
    by (auto simp: frame_def emit_simps)
qed



lemma getitem_text_Inl: "getitem_text r = Inl e \<Longrightarrow> is_Exception e"
  by (auto simp: getitem_text_def split: option.splits)

lemma file_write_Inl: "file_write f v w = (Inl e, w1) \<Longrightarrow> is_Exception e"
  by (auto simp: file_write_def split: pyval.splits option.splits)

lemma appended_frame: "frame w (appended f text w)"
  by (auto simp: appended_def frame_def split: option.splits node.splits)

lemma file_write_frame: "file_write f v w = (r, w1) \<Longrightarrow> frame w w1"
  using appended_frame frame_refl
  by (auto simp: file_write_def split: pyval.splits option.splits)

lemma file_write_trace: "file_write f v w = (r, w1) \<Longrightarrow> trace w1 = trace w"
  by (auto simp: file_write_def appended_def split: pyval.splits option.splits node.splits)

lemma file_write_fs_only:
  "write_fault w' = write_fault w \<Longrightarrow> fst (file_write f v w') = fst (file_write f v w)"
  by (simp add: file_write_def split: pyval.splits option.splits)

section \<open>The stages of the \<^verbatim>\<open>try\<close> block\<close>

lemma transcribe_audio_try_stages:
  "transcribe_audio_try whisper a mn b lang tsk =
     and_then (create_datetime_directory b) (\<lambda>(d, s). load_stage whisper a mn lang tsk d s)"
  by (simp add: transcribe_audio_try_def load_stage_def run_stage_def save_stage_def)

lemma try_dir_fails:
  "create_datetime_directory b w = (Inl e, w1)
   \<Longrightarrow> transcribe_audio_try whisper a mn b lang tsk w = (Inl e, w1)"
  by (simp add: transcribe_audio_try_stages and_then_Inl)

lemma try_dir_returns:
  "create_datetime_directory b w = (Inr (d, s), w1)
   \<Longrightarrow> transcribe_audio_try whisper a mn b lang tsk w = load_stage whisper a mn lang tsk d s w1"
  by (simp add: transcribe_audio_try_stages and_then_Inr)

text \<open>Every statement keeps the frame.\<close>

lemma save_stage_frame: "save_stage f res w = (r, w') \<Longrightarrow> frame w w'"
  unfolding save_stage_def
  by (erule frame_and_then, erule open_w_frame,
      erule frame_and_then, simp add: evaluate_simp frame_refl,
      erule frame_and_then, erule file_write_frame,
      erule frame_and_then, erule print_frame, simp add: return_simp frame_refl)

lemma run_stage_frame: "run_stage m a lang tsk d s w = (r, w') \<Longrightarrow> frame w w'"
  unfolding run_stage_def
  by (erule frame_and_then, erule print_frame,
      erule frame_and_then, simp add: model_transcribe_simp frame_emit,
      erule frame_and_then, simp add: evaluate_simp frame_refl,
      erule save_stage_frame)

lemma load_stage_frame: "load_stage whisper a mn lang tsk d s w = (r, w') \<Longrightarrow> frame w w'"
  unfolding load_stage_def
  by (erule frame_and_then, erule print_frame,
      erule frame_and_then, simp add: load_model_simp frame_emit,
      erule run_stage_frame)

lemma transcribe_audio_try_frame:
  "transcribe_audio_try whisper a mn b lang tsk w = (r, w') \<Longrightarrow> frame w w'"
  unfolding transcribe_audio_try_stages
  by (erule frame_and_then, erule create_datetime_directory_frame,
      auto dest: load_stage_frame)

text \<open>Where an exception of the \<^verbatim>\<open>try\<close> block can come from: what is no instance of
  \<^verbatim>\<open>Exception\<close> was raised by one of the two calls of the engine.\<close>

lemma save_stage_Inl: "save_stage f res w = (Inl e, w') \<Longrightarrow> is_Exception e"
  unfolding save_stage_def
  apply (erule and_then_cases)
   apply (simp add: open_w_Inl(1))
  apply (erule and_then_cases)
   apply (simp add: evaluate_simp getitem_text_Inl)
  apply (erule and_then_cases)
   apply (simp add: file_write_Inl)
  apply (erule and_then_cases)
   apply (simp add: print_Inl)
  apply (simp add: return_simp)
  done

lemma run_stage_Inl:
  "run_stage m a lang tsk d s w = (Inl e, w')
   \<Longrightarrow> is_Exception e \<or> m a (transcribe_options lang tsk) = Inl e"
  unfolding run_stage_def
  apply (erule and_then_cases)
   apply (simp add: print_Inl)
  apply (erule and_then_cases)
   apply (simp add: model_transcribe_simp)
  apply (erule and_then_cases)
   apply (simp add: evaluate_simp os_path_join_Inl)
  apply (simp add: save_stage_Inl)
  done

lemma load_stage_Inl:
  "load_stage whisper a mn lang tsk d s w = (Inl e, w')
   \<Longrightarrow> is_Exception e \<or> whisper mn = Inl e
       \<or> (\<exists>m. whisper mn = Inr m \<and> m a (transcribe_options lang tsk) = Inl e)"
  unfolding load_stage_def
  apply (erule and_then_cases)
   apply (simp add: print_Inl)
  apply (erule and_then_cases)
   apply (simp add: load_model_simp)
  apply (auto simp: load_model_simp dest: run_stage_Inl)
  done

lemma transcribe_audio_try_Inl:
  "transcribe_audio_try whisper a mn b lang tsk w = (Inl e, w')
   \<Longrightarrow> is_Exception e \<or> whisper mn = Inl e
       \<or> (\<exists>m. whisper mn = Inr m \<and> m a (transcribe_options lang tsk) = Inl e)"
  unfolding transcribe_audio_try_stages
  apply (erule and_then_cases)
   apply (simp add: create_datetime_directory_Inl(1))
  apply (auto dest: load_stage_Inl)
  done

section \<open>The handler\<close>


lemma transcribe_audio_passes:
  "transcribe_audio_try whisper a mn b lang tsk w = (Inl e, w1) \<Longrightarrow> \<not> is_Exception e
   \<Longrightarrow> transcribe_audio whisper a mn b lang tsk w = (Inl e, w1)"
  by (simp add: transcribe_audio_def)

lemma transcribe_audio_catches:
  assumes "transcribe_audio_try whisper a mn b lang tsk w = (Inl e, w1)" and "is_Exception e"
  shows "print (''Error transcribing audio: '' @ exn_str e) w1 = (Inr u, w2)
         \<Longrightarrow> transcribe_audio whisper a mn b lang tsk w = (Inr PyNone, w2)"
    and "print (''Error transcribing audio: '' @ exn_str e) w1 = (Inl e2, w2)
         \<Longrightarrow> transcribe_audio whisper a mn b lang tsk w = (Inl e2, w2)"
  using assms by (simp_all add: transcribe_audio_def and_then_def return_simp)

lemma transcribe_audio_catches_works:
  assumes "transcribe_audio_try whisper a mn b lang tsk w = (Inl e, w1)" and "is_Exception e"
    and "console_works w1"
  shows "transcribe_audio whisper a mn b lang tsk w
           = (Inr PyNone, emit (Print (''Error transcribing audio: '' @ exn_str e)) w1)"
  using assms(1,2) print_works [OF assms(3)] by (rule transcribe_audio_catches(1))

text \<open>The handler adds at most its own line to what the \<^verbatim>\<open>try\<close> block left.\<close>

lemma transcribe_audio_snd:
  assumes "transcribe_audio_try whisper a mn b lang tsk w = (r, w1)"
  shows "snd (transcribe_audio whisper a mn b lang tsk w) = w1
       \<or> (\<exists>s. snd (transcribe_audio whisper a mn b lang tsk w) = emit (Print s) w1)"
proof (cases r)
  case (Inr v)
  with assms show ?thesis by (simp add: transcribe_audio_def)
next
  case (Inl e)
  obtain r2 w2 where p: "print (''Error transcribing audio: '' @ exn_str e) w1 = (r2, w2)"
    by (cases "print (''Error transcribing audio: '' @ exn_str e) w1")
  show ?thesis
  proof (cases r2)
    case (Inl e2)
    with p print_Inl have "w2 = w1" by blast
    with assms \<open>r = Inl e\<close> p Inl show ?thesis
      by (simp add: transcribe_audio_def and_then_def)
  next
    case (Inr u)
    with p print_Inr have "w2 = emit (Print (''Error transcribing audio: '' @ exn_str e)) w1"
      by blast
    with assms \<open>r = Inl e\<close> p Inr show ?thesis
      by (auto simp: transcribe_audio_def and_then_def return_simp)
  qed
qed

lemma transcribe_audio_frame:
  "transcribe_audio whisper a mn b lang tsk w = (r, w') \<Longrightarrow> frame w w'"
proof -
  assume t: "transcribe_audio whisper a mn b lang tsk w = (r, w')"
  obtain r1 w1 where b: "transcribe_audio_try whisper a mn b lang tsk w = (r1, w1)"
    by (cases "transcribe_audio_try whisper a mn b lang tsk w")
  from transcribe_audio_snd [OF b] t have "w' = w1 \<or> (\<exists>s. w' = emit (Print s) w1)" by simp
  then have "frame w1 w'" using frame_refl frame_emit by auto
  with transcribe_audio_try_frame [OF b] show ?thesis using frame_trans by blast
qed

section \<open>The stages when the console works\<close>

lemma load_stage_works:
  assumes "console_works w"
  shows "load_stage whisper a mn lang tsk d s w =
     (case whisper mn of
        Inl e \<Rightarrow> (Inl e, loading_world mn w)
      | Inr m \<Rightarrow> run_stage m a lang tsk d s (loading_world mn w))"
  using print_works [OF assms]
  by (simp add: load_stage_def and_then_def load_model_simp loading_world_def
      split: sum.splits)

lemma run_stage_works:
  assumes "console_works w"
  shows "run_stage m a lang tsk d s w =
     (case m a (transcribe_options lang tsk) of
        Inl e \<Rightarrow> (Inl e, transcribing_world a (transcribe_options lang tsk) w)
      | Inr res \<Rightarrow>
          (case os_path_join (PyStr d) [s @ ''.txt''] of
             Inl e \<Rightarrow> (Inl e, transcribing_world a (transcribe_options lang tsk) w)
           | Inr f \<Rightarrow> save_stage f res (transcribing_world a (transcribe_options lang tsk) w)))"
  using print_works [OF assms]
  by (simp add: run_stage_def and_then_def model_transcribe_simp transcribing_world_def
      evaluate_simp split: sum.splits)

lemma save_open_fails:
  "open_w f w = (Inl e, w6) \<Longrightarrow> save_stage f res w = (Inl e, w6)"
  by (simp add: save_stage_def and_then_def)

lemma save_text_fails:
  "open_w f w = (Inr k, w6) \<Longrightarrow> getitem_text res = Inl e \<Longrightarrow> save_stage f res w = (Inl e, w6)"
  by (simp add: save_stage_def and_then_def evaluate_simp)

lemma save_write_fails:
  "open_w f w = (Inr k, w6) \<Longrightarrow> getitem_text res = Inr v \<Longrightarrow> file_write k v w6 = (Inl e, w7)
   \<Longrightarrow> save_stage f res w = (Inl e, w7)"
  by (simp add: save_stage_def and_then_def evaluate_simp)



text \<open>When directory creation has returned and the console works: the \<^verbatim>\<open>try\<close> block
  at each of its later ends.\<close>

lemma try_load_fails:
  assumes "create_datetime_directory b w = (Inr (d, s), w1)" and "console_works w1"
    and "whisper mn = Inl e"
  shows "transcribe_audio_try whisper a mn b lang tsk w = (Inl e, loading_world mn w1)"
  using assms by (simp add: try_dir_returns load_stage_works)

lemma try_run_fails:
  assumes "create_datetime_directory b w = (Inr (d, s), w1)" and "console_works w1"
    and "whisper mn = Inr m" and "m a (transcribe_options lang tsk) = Inl e"
  shows "transcribe_audio_try whisper a mn b lang tsk w
           = (Inl e, transcribing_world a (transcribe_options lang tsk) (loading_world mn w1))"
  using assms
  by (simp add: try_dir_returns load_stage_works run_stage_works loading_world_simps)


section \<open>The entry point after parsing\<close>

lemma main_missing:
  assumes "parse_args argv = Inr args" and "audio args = PyStr a" and "\<not> os_path_exists a w"
  shows "main whisper argv w =
     (case print (''Error: Audio file '' @ a @ '' does not exist'') w of
        (Inl e, w1) \<Rightarrow> (Inl e, w1)
      | (Inr u, w1) \<Rightarrow> (Inl (SystemExit 1), w1))"
  using assms
  by (simp add: main_def and_then_def evaluate_simp exists_arg_def sys_exit_def
      split: prod.splits sum.splits)




section \<open>A missing audio file\<close>

text \<open>
  Claim C3. For every invocation whose positional audio path names nothing in the
  filesystem, the process exits with code 1, no model is loaded, no directory is created
  and the filesystem is unchanged: the only event that \<^verbatim>\<open>main\<close> can add is the error
  line. When the console takes the line, \<^verbatim>\<open>main\<close> prints it and raises
  \<^verbatim>\<open>SystemExit(1)\<close>; when the console fails instead, its error goes uncaught, which
  also ends the process with code 1.
\<close>

theorem missing_audio_file:
  assumes parse: "parse_args argv = Inr args"
    and path: "audio args = PyStr a"
    and missing: "\<not> os_path_exists a w"
  shows "exit_code (fst (main whisper argv w)) = 1
       \<and> fs (snd (main whisper argv w)) = fs w
       \<and> (new_events w (snd (main whisper argv w)) = []
          \<or> new_events w (snd (main whisper argv w))
               = [Print (''Error: Audio file '' @ a @ '' does not exist'')])
       \<and> (\<forall>m. LoadModel m \<notin> set (new_events w (snd (main whisper argv w))))
       \<and> (\<forall>d. MakeDirs d \<notin> set (new_events w (snd (main whisper argv w))))
       \<and> (console_fault w (console w) (''Error: Audio file '' @ a @ '' does not exist'') = None
            \<longrightarrow> main whisper argv w
                  = (Inl (SystemExit 1),
                     emit (Print (''Error: Audio file '' @ a @ '' does not exist'')) w))"
proof -
  let ?line = "''Error: Audio file '' @ a @ '' does not exist''"
  note m = main_missing [OF assms, of whisper]
  show ?thesis
  proof (cases "console_fault w (console w) ?line")
    case None
    then have "print ?line w = (Inr (), emit (Print ?line) w)" by (simp add: print_def)
    with m have "main whisper argv w = (Inl (SystemExit 1), emit (Print ?line) w)" by simp
    then show ?thesis using None by (simp add: emit_simps new_events_def)
  next
    case (Some x)
    then have "print ?line w = (Inl (Exception (fst x) (snd x)), w)"
      by (cases x) (simp add: print_def)
    with m have "main whisper argv w = (Inl (Exception (fst x) (snd x)), w)" by simp
    then show ?thesis using Some by (simp add: new_events_def)
  qed
qed

section \<open>The directory comes first and stays\<close>

lemma made_dir_is_dir:
  assumes "create_datetime_directory b w = (Inr (d, s), w1)"
  shows "os_path_isdir d w1" and "trace w1 = trace w @ [MakeDirs d]"
proof -
  note c = create_datetime_directory_Inr [OF assms]
  from c(1) obtain base where
    d: "d = (with_sep base @ format_02d (year (clock w) mod 100) @ CHR ''/''
              # format_02d (month (clock w))) @ CHR ''/''
              # (format_02d (day (clock w)) @ format_02d (hour (clock w)))"
    by blast
  let ?h = "with_sep base @ format_02d (year (clock w) mod 100) @ CHR ''/''
              # format_02d (month (clock w))"
  have t: "plain_name (format_02d (day (clock w)) @ format_02d (hour (clock w)))"
    by (rule format_02d_plain)
  have h: "?h \<noteq> []" "last ?h \<noteq> CHR ''/''"
    using format_02d_nonempty [of "month (clock w)"] last_format_02d [of "month (clock w)"]
    by simp_all
  show "os_path_isdir d w1"
    using os_makedirs_Inr [OF c(2)] unfolding d by (rule makedirs_child_isdir [OF t h])
  show "trace w1 = trace w @ [MakeDirs d]" using c(2) by (rule os_makedirs_trace)
qed

text \<open>
  Claim C7. In every call of \<^verbatim>\<open>transcribe_audio\<close>: when the Path Builder raises, no
  model is loaded. When it returns, the directory exists in the world in which loading
  is attempted, and the directory creation is the first new event, so that a load can
  only follow it: the announcement and the load come next when the console takes the
  announcement, and no load is attempted at all when it does not. Whatever happens then
  -- loading, transcription or the file write fails, or all succeed -- the directory is
  still a directory in the final world.
\<close>

theorem directory_precedes_model:
  fixes whisper :: engine
  shows "(\<forall>e w1. create_datetime_directory output_base_dir w = (Inl e, w1) \<longrightarrow>
            (\<forall>m. LoadModel m \<notin> set (new_events w
               (snd (transcribe_audio whisper audio_path model_name output_base_dir lang tsk w)))))
       \<and> (\<forall>output_dir stem w1.
            create_datetime_directory output_base_dir w = (Inr (output_dir, stem), w1) \<longrightarrow>
              os_path_isdir output_dir w1
            \<and> (\<exists>rest. new_events w
                 (snd (transcribe_audio whisper audio_path model_name output_base_dir lang tsk w))
                   = MakeDirs output_dir # rest
                \<and> (console_fault w1 (console w1) (''Loading model: '' @ py_str model_name) = None
                     \<longrightarrow> (\<exists>later. rest = Print (''Loading model: '' @ py_str model_name)
                                   # LoadModel model_name # later))
                \<and> (console_fault w1 (console w1) (''Loading model: '' @ py_str model_name) \<noteq> None
                     \<longrightarrow> (\<forall>m. LoadModel m \<notin> set rest)))
            \<and> os_path_isdir output_dir
                 (snd (transcribe_audio whisper audio_path model_name output_base_dir lang tsk w)))"
proof (intro conjI allI impI)
  let ?ta = "transcribe_audio whisper audio_path model_name output_base_dir lang tsk w"
  let ?body = "transcribe_audio_try whisper audio_path model_name output_base_dir lang tsk w"
  let ?line = "''Loading model: '' @ py_str model_name"
  {
    fix e w1 m
    assume c: "create_datetime_directory output_base_dir w = (Inl e, w1)"
    have t: "?body = (Inl e, w1)" using c by (rule try_dir_fails)
    from transcribe_audio_snd [OF t] create_datetime_directory_Inl(3) [OF c]
    show "LoadModel m \<notin> set (new_events w (snd ?ta))"
      by (auto simp: new_events_def emit_simps)
  }
  {
    fix output_dir stem w1
    assume c: "create_datetime_directory output_base_dir w = (Inr (output_dir, stem), w1)"
    note mk = made_dir_is_dir [OF c]
    show "os_path_isdir output_dir w1" by (rule mk(1))
    obtain r w' where t: "?body = (r, w')" by (cases ?body)
    then have l: "load_stage whisper audio_path model_name lang tsk output_dir stem w1 = (r, w')"
      using try_dir_returns [OF c] by simp
    have f: "frame w1 w'" using l by (rule load_stage_frame)
    from transcribe_audio_snd [OF t] have ff: "frame w' (snd ?ta)"
      using frame_refl frame_emit by auto
    from f ff have "frame w1 (snd ?ta)" by (rule frame_trans)
    then show "os_path_isdir output_dir (snd ?ta)" using mk(1) os_path_isdir_frame by blast
    have shape: "(console_fault w1 (console w1) ?line = None
          \<longrightarrow> (\<exists>later. trace w' = trace w1 @ Print ?line # LoadModel model_name # later))
        \<and> (console_fault w1 (console w1) ?line \<noteq> None \<longrightarrow> w' = w1)"
    proof (cases "console_fault w1 (console w1) ?line")
      case None
      then have p: "print ?line w1 = (Inr (), emit (Print ?line) w1)" by (simp add: print_def)
      from l p have "(case whisper model_name of
            Inl e \<Rightarrow> (Inl e, loading_world model_name w1)
          | Inr m \<Rightarrow> run_stage m audio_path lang tsk output_dir stem (loading_world model_name w1))
          = (r, w')"
        by (simp add: load_stage_def and_then_def load_model_simp loading_world_def
            split: sum.splits)
      then have "frame (loading_world model_name w1) w'"
        using run_stage_frame frame_refl by (auto split: sum.splits)
      then obtain later where "trace w' = trace (loading_world model_name w1) @ later"
        by (auto simp: frame_def)
      then show ?thesis using None by (simp add: loading_world_simps)
    next
      case (Some x)
      then have "print ?line w1 = (Inl (Exception (fst x) (snd x)), w1)"
        by (cases x) (simp add: print_def)
      with l have "w' = w1" by (simp add: load_stage_def and_then_def)
      with Some show ?thesis by simp
    qed
    from transcribe_audio_snd [OF t] obtain tail where
      tl: "trace (snd ?ta) = trace w' @ tail" "\<forall>m. LoadModel m \<notin> set tail"
      by (auto simp: emit_simps)
    from f obtain evs where evs: "trace w' = trace w1 @ evs" by (auto simp: frame_def)
    have 1: "new_events w (snd ?ta) = MakeDirs output_dir # (evs @ tail)"
      using tl(1) evs mk(2) by (simp add: new_events_def)
    have 2: "\<exists>later. evs @ tail = Print ?line # LoadModel model_name # later"
      if "console_fault w1 (console w1) ?line = None"
      using shape that evs by auto
    have 3: "\<forall>m. LoadModel m \<notin> set (evs @ tail)"
      if "console_fault w1 (console w1) ?line \<noteq> None"
      using shape that evs tl(2) by auto
    show "\<exists>rest. new_events w (snd ?ta) = MakeDirs output_dir # rest
        \<and> (console_fault w1 (console w1) ?line = None
             \<longrightarrow> (\<exists>later. rest = Print ?line # LoadModel model_name # later))
        \<and> (console_fault w1 (console w1) ?line \<noteq> None \<longrightarrow> (\<forall>m. LoadModel m \<notin> set rest))"
    proof (rule exI [of _ "evs @ tail"], intro conjI impI)
      show "new_events w (snd ?ta) = MakeDirs output_dir # evs @ tail" by (rule 1)
      show "\<exists>later. evs @ tail = Print ?line # LoadModel model_name # later"
        if "console_fault w1 (console w1) ?line = None" using that by (rule 2)
      show "\<forall>m. LoadModel m \<notin> set (evs @ tail)"
        if "console_fault w1 (console w1) ?line \<noteq> None" using that by (rule 3)
    qed
  }
qed

theorem missing_audio_file_witness:
  "parse_args [''nope.wav''] = Inr (sample_args\<lparr>audio := PyStr ''nope.wav''\<rparr>)
   \<and> \<not> os_path_exists ''nope.wav'' sample_world
   \<and> exit_code (fst (main hello_engine [''nope.wav''] sample_world)) = 1
   \<and> main hello_engine [''nope.wav''] sample_world
       = (Inl (SystemExit 1),
          emit (Print ''Error: Audio file nope.wav does not exist'') sample_world)
   \<and> fs (snd (main hello_engine [''nope.wav''] sample_world)) = fs sample_world"
proof -
  have parse: "parse_args [''nope.wav''] = Inr (sample_args\<lparr>audio := PyStr ''nope.wav''\<rparr>)"
    by code_simp
  have path: "audio (sample_args\<lparr>audio := PyStr ''nope.wav''\<rparr>) = PyStr ''nope.wav''" by simp
  have missing: "\<not> os_path_exists ''nope.wav'' sample_world" by code_simp
  have quiet: "console_fault sample_world (console sample_world)
      (''Error: Audio file '' @ ''nope.wav'' @ '' does not exist'') = None"
    by (simp add: sample_world_def)
  from missing_audio_file [OF parse path missing, of hello_engine] quiet
  show ?thesis using parse missing by (simp add: emit_simps)
qed

theorem directory_precedes_model_witness:
  "fst (create_datetime_directory (PyStr ''output'') sample_world)
     = Inr (''output/24/03/0714'', ''0509'')
   \<and> fst (transcribe_audio broken_engine (PyStr ''sample.wav'') (PyStr ''tiny'')
        (PyStr ''output'') PyNone (PyStr ''transcribe'') sample_world) = Inr PyNone
   \<and> os_path_isdir ''output/24/03/0714''
        (snd (transcribe_audio broken_engine (PyStr ''sample.wav'') (PyStr ''tiny'')
           (PyStr ''output'') PyNone (PyStr ''transcribe'') sample_world))
   \<and> take 3 (new_events sample_world
        (snd (transcribe_audio broken_engine (PyStr ''sample.wav'') (PyStr ''tiny'')
           (PyStr ''output'') PyNone (PyStr ''transcribe'') sample_world)))
       = [MakeDirs ''output/24/03/0714'', Print ''Loading model: tiny'',
          LoadModel (PyStr ''tiny'')]"
proof -
  let ?w1 = "snd (create_datetime_directory (PyStr ''output'') sample_world)"
  have d: "fst (create_datetime_directory (PyStr ''output'') sample_world)
       = Inr (''output/24/03/0714'', ''0509'')" by code_simp
  then have dir: "create_datetime_directory (PyStr ''output'') sample_world
       = (Inr (''output/24/03/0714'', ''0509''), ?w1)"
    by (metis prod.collapse)
  have r: "fst (transcribe_audio broken_engine (PyStr ''sample.wav'') (PyStr ''tiny'')
        (PyStr ''output'') PyNone (PyStr ''transcribe'') sample_world) = Inr PyNone"
    by code_simp
  have "frame sample_world ?w1" using dir by (rule create_datetime_directory_frame)
  then have quiet: "console_fault ?w1 (console ?w1) (''Loading model: '' @ py_str (PyStr ''tiny''))
      = None"
    by (simp add: frame_def sample_world_def)
  from directory_precedes_model [where whisper = broken_engine
      and audio_path = "PyStr ''sample.wav''" and model_name = "PyStr ''tiny''"
      and output_base_dir = "PyStr ''output''" and lang = PyNone
      and tsk = "PyStr ''transcribe''" and w = sample_world,
      THEN conjunct2, rule_format, OF dir] quiet
  show ?thesis using d r by auto
qed

section \<open>The successful run\<close>




end
